theory Spec2Isabelle
  imports Complex_Main "HOL-Library.AList"
begin

section \<open>Podcast generator: data model\<close>

text \<open>
  The application keeps its state in one session dictionary (\<^verbatim>\<open>st.session_state\<close>) and in
  one SQLite file. Every exception Python can raise in the modelled code is a value of
  \<open>error\<close>; a function that can raise returns \<open>error + 'a\<close>.
\<close>

datatype error =
    KeyError
  | IndexError
  | TypeError
  | AttributeError
  | ValueError
  | SynthesisError
  | DatabaseError

text \<open>
  \<^verbatim>\<open>pydub.AudioSegment\<close> is a library type. It is modelled by its time line: one list
  element per millisecond, so that \<^verbatim>\<open>len(audio)\<close> is \<open>length\<close>, \<^verbatim>\<open>a + b\<close> is \<open>@\<close>,
  \<^verbatim>\<open>AudioSegment.empty()\<close> is \<open>[]\<close> and \<^verbatim>\<open>AudioSegment.silent(duration=d)\<close> is \<open>d\<close>
  frames of value \<open>0\<close>.
\<close>

type_synonym AudioSegment = "int list"

type_synonym bytes = "nat list"

definition silent :: "nat \<Rightarrow> AudioSegment" where
  "silent duration = replicate duration 0"

text \<open>An entry of \<^verbatim>\<open>st.session_state.audio_segments\<close>: \<^verbatim>\<open>(label, audio)\<close>, where
  \<^verbatim>\<open>audio\<close> is \<^verbatim>\<open>None\<close> for a clip loaded from a snapshot that stored no audio.\<close>

type_synonym clip = "string \<times> AudioSegment option"

section \<open>Python strings\<close>

text \<open>
  A Python \<^verbatim>\<open>str\<close> is modelled as a \<open>string\<close> of 8-bit characters. The white space of
  \<^verbatim>\<open>str.strip()\<close> and \<^verbatim>\<open>str.split()\<close> is the ASCII white space (codes 9 to 13 and
  28 to 32); white space outside ASCII is not modelled.
\<close>

definition isspace :: "char \<Rightarrow> bool" where
  "isspace c = (let n = (of_char c :: nat) in (9 \<le> n \<and> n \<le> 13) \<or> (28 \<le> n \<and> n \<le> 32))"

definition isdigit :: "char \<Rightarrow> bool" where
  "isdigit c = (let n = (of_char c :: nat) in 48 \<le> n \<and> n \<le> 57)"

text \<open>\<^verbatim>\<open>s.startswith(p)\<close>\<close>

definition startswith :: "string \<Rightarrow> string \<Rightarrow> bool" where
  "startswith s p = (take (length p) s = p)"

text \<open>\<^verbatim>\<open>sub in s\<close> on strings: \<open>sub\<close> occurs in \<open>s\<close> as a contiguous substring.\<close>

fun contains :: "string \<Rightarrow> string \<Rightarrow> bool" where
  "contains [] sub = (sub = [])"
| "contains (c # cs) sub = (startswith (c # cs) sub \<or> contains cs sub)"

text \<open>\<^verbatim>\<open>s.strip()\<close>\<close>

definition strip :: "string \<Rightarrow> string" where
  "strip s = rev (dropWhile isspace (rev (dropWhile isspace s)))"

text \<open>\<^verbatim>\<open>s.split()\<close>: the maximal runs of characters that are not white space. \<open>cur\<close> is
  the run being read.\<close>

fun split_from :: "string \<Rightarrow> string \<Rightarrow> string list" where
  "split_from cur [] = (if cur = [] then [] else [cur])"
| "split_from cur (c # cs) =
     (if isspace c then (if cur = [] then split_from [] cs else cur # split_from [] cs)
      else split_from (cur @ [c]) cs)"

definition split :: "string \<Rightarrow> string list" where
  "split s = split_from [] s"

text \<open>\<^verbatim>\<open>str(n)\<close> for a natural number \<open>n\<close>: its decimal digits.\<close>

definition digit_char :: "nat \<Rightarrow> char" where
  "digit_char d = char_of (48 + d)"

function str_nat :: "nat \<Rightarrow> string" where
  "str_nat n = (if n < 10 then [digit_char n] else str_nat (n div 10) @ [digit_char (n mod 10)])"
  by pat_completeness auto
termination
  by (relation "measure id") auto

declare str_nat.simps [simp del]

text \<open>\<^verbatim>\<open>str(i)\<close> for an integer \<open>i\<close>.\<close>

definition str_int :: "int \<Rightarrow> string" where
  "str_int i = (if i < 0 then CHR ''-'' # str_nat (nat (- i)) else str_nat (nat i))"

text \<open>
  \<^verbatim>\<open>int(s)\<close> on a token without white space: an optional sign, then decimal digits, with
  single underscores allowed between digits; anything else raises \<^verbatim>\<open>ValueError\<close>.
  Digits outside ASCII are not modelled.
\<close>

fun valid_digits :: "string \<Rightarrow> bool" where
  "valid_digits [] = False"
| "valid_digits [c] = isdigit c"
| "valid_digits (c # d # cs) =
     (isdigit c \<and> (if d = CHR ''_'' then valid_digits cs else valid_digits (d # cs)))"

definition digits_val :: "string \<Rightarrow> nat" where
  "digits_val s = foldl (\<lambda>acc c. 10 * acc + (of_char c - 48)) 0 (filter isdigit s)"

definition py_int :: "string \<Rightarrow> error + int" where
  "py_int s =
     (let (neg, body) =
        (case s of
           [] \<Rightarrow> (False, s)
         | c # cs \<Rightarrow>
             if c = CHR ''-'' then (True, cs)
             else if c = CHR ''+'' then (False, cs)
             else (False, s))
      in if valid_digits body
         then Inr (if neg then - int (digits_val body) else int (digits_val body))
         else Inl ValueError)"

text \<open>\<^verbatim>\<open>xs[i]\<close> on a list: a negative index counts from the end, an index out of range
  raises \<^verbatim>\<open>IndexError\<close>. The result is the position that is read or written.\<close>

definition list_index :: "'a list \<Rightarrow> int \<Rightarrow> error + nat" where
  "list_index xs i =
     (if 0 \<le> i \<and> i < int (length xs) then Inr (nat i)
      else if i < 0 \<and> - int (length xs) \<le> i then Inr (nat (int (length xs) + i))
      else Inl IndexError)"

text \<open>\<^verbatim>\<open>d[k]\<close> on a dictionary, kept as an association list in insertion order: a missing
  key raises \<^verbatim>\<open>KeyError\<close>.\<close>

definition lookup :: "('k \<times> 'v) list \<Rightarrow> 'k \<Rightarrow> error + 'v" where
  "lookup d k = (case map_of d k of None \<Rightarrow> Inl KeyError | Some v \<Rightarrow> Inr v)"

section \<open>Session state\<close>

text \<open>A script line is a dictionary with the keys \<^verbatim>\<open>speaker\<close> and \<^verbatim>\<open>text\<close>, and
  \<^verbatim>\<open>uid\<close> once the edit step has rendered it.\<close>

record DialogueLine =
  uid :: "string option"
  speaker :: string
  line_text :: string

record settings =
  stability :: real
  similarity_boost :: real
  style :: real

text \<open>A value of \<^verbatim>\<open>st.session_state.available_voices\<close>.\<close>

record voice =
  voice_id :: string
  samples :: "string list"

text \<open>\<^verbatim>\<open>st.session_state.config\<close>. The key \<^verbatim>\<open>voice_settings_per_speaker\<close> is absent
  until the configuration step adds it; \<^verbatim>\<open>intro_music\<close> is \<^verbatim>\<open>None\<close> throughout.\<close>

record config =
  intro_text :: string
  intro_voice :: string
  outro_text :: string
  outro_voice :: string
  intro_music :: "string option"
  podcasters :: "(string \<times> string) list"
  voice_settings :: settings
  voice_settings_per_speaker :: "(string \<times> settings) list option"

text \<open>\<^verbatim>\<open>st.session_state\<close>. The key \<^verbatim>\<open>podcast_finalized\<close> is absent until the finalize
  step adds it.\<close>

record session =
  script :: "DialogueLine list"
  config :: config
  audio_segments :: "clip list"
  current_step :: int
  available_voices :: "(string \<times> voice) list"
  podcast_finalized :: "bool option"

text \<open>A handler mutates the session in place and may then raise: its result is the
  session as the handler left it, and the exception that escaped it, if any.\<close>

type_synonym outcome = "session \<times> error option"

section \<open>Step 3: editing the script\<close>

text \<open>
  One iteration of the loop of \<^verbatim>\<open>step_3\<close> (the two buttons apart): \<open>speaker_widget\<close> and
  \<open>text_widget\<close> are what the two input widgets return. The result is the speaker the
  widget shows, and the line as stored.
\<close>

definition edit_dialog :: "string \<Rightarrow> string \<Rightarrow> DialogueLine \<Rightarrow> string \<times> DialogueLine" where
  "edit_dialog speaker_widget text_widget line =
     (let is_intro = startswith (line_text line) ''Intro:'';
          is_outro = startswith (line_text line) ''Outro:''
      in if is_intro \<or> is_outro
         then (''Presenter'', line\<lparr>speaker := ''Presenter'', line_text := text_widget\<rparr>)
         else (speaker_widget, line\<lparr>speaker := speaker_widget, line_text := text_widget\<rparr>))"

text \<open>The loop over the script; \<open>widgets i\<close> are the values of the widgets of line \<open>i\<close>.\<close>

definition step_3 :: "(nat \<Rightarrow> string \<times> string) \<Rightarrow> session \<Rightarrow> session" where
  "step_3 widgets st =
     st\<lparr>script :=
          map (\<lambda>(i, line). snd (edit_dialog (fst (widgets i)) (snd (widgets i)) line))
            (enumerate 0 (script st))\<rparr>"

text \<open>What the widgets return when the operator has typed nothing: the stored values.\<close>

definition untouched :: "session \<Rightarrow> nat \<Rightarrow> string \<times> string" where
  "untouched st i = (speaker (script st ! i), line_text (script st ! i))"

text \<open>\<^verbatim>\<open>st.session_state.script.insert(i+1, {...})\<close> and
  \<^verbatim>\<open>st.session_state.script.pop(i)\<close>, for the position \<open>i\<close> of a rendered line.\<close>

definition add_dialog_below :: "string \<Rightarrow> nat \<Rightarrow> session \<Rightarrow> session" where
  "add_dialog_below new_uid i st =
     st\<lparr>script := take (i + 1) (script st) @
            [\<lparr>uid = Some new_uid, speaker = [], line_text = []\<rparr>] @ drop (i + 1) (script st)\<rparr>"

definition delete_dialog :: "nat \<Rightarrow> session \<Rightarrow> session" where
  "delete_dialog i st = st\<lparr>script := take i (script st) @ drop (i + 1) (script st)\<rparr>"

section \<open>Step 4: voice configuration\<close>

text \<open>The table \<^verbatim>\<open>default_voices\<close>: speaker, voice id, preferred voice name.\<close>

definition default_voices :: "(string \<times> string \<times> string) list" where
  "default_voices =
     [(''Host 1'', ''A9ATTqUUQ6GHu0coCz8t'', ''Hamid''),
      (''Presenter'', ''cjVigY5qzO86Huf0OWal'', ''Eric''),
      (''Host 2'', ''XrExE9yKIg1WjnnlVkGX'', ''Matilda'')]"

text \<open>\<^verbatim>\<open>list(st.session_state.available_voices.keys())[0]\<close>\<close>

definition first_voice :: "(string \<times> voice) list \<Rightarrow> error + string" where
  "first_voice voices = (case map fst voices of [] \<Rightarrow> Inl IndexError | k # _ \<Rightarrow> Inr k)"

text \<open>
  The voice chosen for a speaker that \<^verbatim>\<open>config['podcasters']\<close> does not hold yet. Python
  evaluates the fallback argument of \<^verbatim>\<open>next\<close> before the search.
\<close>

definition initial_voice :: "(string \<times> voice) list \<Rightarrow> string \<Rightarrow> error + string" where
  "initial_voice voices podcaster =
     (case map_of default_voices podcaster of
        Some (default_id, default_voice_name) \<Rightarrow>
          (case first_voice voices of
             Inl e \<Rightarrow> Inl e
           | Inr fallback \<Rightarrow>
               (case find (\<lambda>v. contains v default_voice_name) (map fst voices) of
                  Some matching_voice \<Rightarrow> Inr matching_voice
                | None \<Rightarrow> Inr fallback))
      | None \<Rightarrow> first_voice voices)"

text \<open>The two initialisations at the head of the loop body of \<^verbatim>\<open>step_4\<close>, for one
  podcaster: the default settings, then the default voice.\<close>

definition init_podcaster :: "string \<Rightarrow> session \<Rightarrow> outcome" where
  "init_podcaster podcaster st =
     (let per_speaker =
            (case voice_settings_per_speaker (config st) of None \<Rightarrow> [] | Some m \<Rightarrow> m);
          per_speaker' =
            (if podcaster \<in> fst ` set per_speaker then per_speaker
             else AList.update podcaster
                    \<lparr>stability = 0.5, similarity_boost = 0.8, style = 0.1\<rparr> per_speaker);
          st1 = st\<lparr>config := (config st)\<lparr>voice_settings_per_speaker := Some per_speaker'\<rparr>\<rparr>
      in if podcaster \<in> fst ` set (podcasters (config st1)) then (st1, None)
         else
           (case initial_voice (available_voices st1) podcaster of
              Inl e \<Rightarrow> (st1, Some e)
            | Inr v \<Rightarrow>
                (st1\<lparr>config := (config st1)
                      \<lparr>podcasters := AList.update podcaster v (podcasters (config st1))\<rparr>\<rparr>,
                 None)))"

text \<open>
  The rest of the loop body of \<^verbatim>\<open>step_4\<close> for one podcaster: a stored voice that is
  not available any more is replaced by the first available voice; then the select box
  and the three sliders are drawn, and what they return (\<open>selected\<close>, \<open>sliders\<close>)
  is stored.
\<close>

definition step_4_podcaster :: "string \<Rightarrow> settings \<Rightarrow> string \<Rightarrow> session \<Rightarrow> outcome" where
  "step_4_podcaster selected sliders podcaster st =
     (case init_podcaster podcaster st of
        (st1, Some e) \<Rightarrow> (st1, Some e)
      | (st1, None) \<Rightarrow>
          (case lookup (podcasters (config st1)) podcaster of
             Inl e \<Rightarrow> (st1, Some e)
           | Inr current_voice \<Rightarrow>
               (case (if current_voice \<in> fst ` set (available_voices st1) then Inr st1
                      else (case first_voice (available_voices st1) of
                              Inl e \<Rightarrow> Inl e
                            | Inr v \<Rightarrow>
                                Inr (st1\<lparr>config := (config st1)
                                       \<lparr>podcasters :=
                                          AList.update podcaster v (podcasters (config st1))\<rparr>\<rparr>))) of
                  Inl e \<Rightarrow> (st1, Some e)
                | Inr st2 \<Rightarrow>
                    (st2\<lparr>config := (config st2)
                          \<lparr>podcasters := AList.update podcaster selected (podcasters (config st2)),
                           voice_settings_per_speaker :=
                             map_option (AList.update podcaster sliders)
                               (voice_settings_per_speaker (config st2))\<rparr>\<rparr>,
                     None))))"

section \<open>Step 5: generating and regenerating audio\<close>

text \<open>
  The text-to-speech service is a parameter: \<open>synth text voice_id settings\<close> is the
  decoded audio that \<^verbatim>\<open>generate_audio\<close> gets back for that request, or the exception
  the client or the decoder raises.
\<close>

type_synonym synth = "string \<Rightarrow> string \<Rightarrow> settings \<Rightarrow> error + AudioSegment"

definition generate_audio :: "synth \<Rightarrow> session \<Rightarrow> string \<Rightarrow> string \<Rightarrow> string \<Rightarrow> error + AudioSegment" where
  "generate_audio syn st text voice speaker_name =
     (case voice_settings_per_speaker (config st) of
        None \<Rightarrow> Inl KeyError
      | Some per_speaker \<Rightarrow>
          (case lookup per_speaker speaker_name of
             Inl e \<Rightarrow> Inl e
           | Inr vs \<Rightarrow> syn text voice vs))"

text \<open>\<^verbatim>\<open>st.session_state.available_voices[st.session_state.config['podcasters'][speaker]]['voice_id']\<close>\<close>

definition voice_id_for :: "session \<Rightarrow> string \<Rightarrow> error + string" where
  "voice_id_for st speaker_name =
     (case lookup (podcasters (config st)) speaker_name of
        Inl e \<Rightarrow> Inl e
      | Inr voice_name \<Rightarrow>
          (case lookup (available_voices st) voice_name of
             Inl e \<Rightarrow> Inl e
           | Inr v \<Rightarrow> Inr (voice_id v)))"

text \<open>The arguments \<^verbatim>\<open>(text, voice_id, speaker)\<close> with which "Generate All Audio" calls
  \<^verbatim>\<open>generate_audio\<close> for a line.\<close>

definition synthesis_request :: "session \<Rightarrow> DialogueLine \<Rightarrow> error + (string \<times> string \<times> string)" where
  "synthesis_request st line =
     (let speaker_name = speaker line
      in case voice_id_for st speaker_name of
           Inl e \<Rightarrow> Inl e
         | Inr v \<Rightarrow> Inr (line_text line, v, speaker_name))"

text \<open>\<^verbatim>\<open>f"Line {i+1}"\<close>\<close>

definition line_label :: "nat \<Rightarrow> string" where
  "line_label i = ''Line '' @ str_nat (i + 1)"

text \<open>The loop of "Generate All Audio" from position \<open>i\<close> on, over the lines left.\<close>

text \<open>The call \<^verbatim>\<open>generate_audio(line['text'], ..., speaker)\<close> of the loop body.\<close>

definition line_audio :: "synth \<Rightarrow> session \<Rightarrow> DialogueLine \<Rightarrow> error + AudioSegment" where
  "line_audio syn st line =
     (case synthesis_request st line of
        Inl e \<Rightarrow> Inl e
      | Inr (text, v, speaker_name) \<Rightarrow> generate_audio syn st text v speaker_name)"

fun generate_loop :: "synth \<Rightarrow> nat \<Rightarrow> DialogueLine list \<Rightarrow> session \<Rightarrow> outcome" where
  "generate_loop syn i [] st = (st, None)"
| "generate_loop syn i (line # rest) st =
     (case line_audio syn st line of
        Inl e \<Rightarrow> (st, Some e)
      | Inr audio \<Rightarrow>
          generate_loop syn (i + 1) rest
            (st\<lparr>audio_segments := audio_segments st @ [(line_label i, Some audio)]\<rparr>))"

definition generate_all :: "synth \<Rightarrow> session \<Rightarrow> outcome" where
  "generate_all syn st = generate_loop syn 0 (script st) (st\<lparr>audio_segments := []\<rparr>)"

text \<open>\<^verbatim>\<open>int(label.split()[1]) - 1\<close>\<close>

definition label_line_index :: "string \<Rightarrow> error + int" where
  "label_line_index label =
     (case split label of
        _ # number # _ \<Rightarrow> (case py_int number of Inl e \<Rightarrow> Inl e | Inr n \<Rightarrow> Inr (n - 1))
      | _ \<Rightarrow> Inl IndexError)"

text \<open>
  What the display of one cached clip reads before its widgets are drawn: the audio is
  exported (\<^verbatim>\<open>None.export\<close> raises \<^verbatim>\<open>AttributeError\<close>), then the script line is found
  from the label. The result is the position of that line in the script.
\<close>

definition clip_target :: "session \<Rightarrow> clip \<Rightarrow> error + nat" where
  "clip_target st c =
     (case snd c of
        None \<Rightarrow> Inl AttributeError
      | Some audio \<Rightarrow>
          (case label_line_index (fst c) of
             Inl e \<Rightarrow> Inl e
           | Inr line_index \<Rightarrow> list_index (script st) line_index))"

text \<open>The body of \<^verbatim>\<open>if st.button(f"Regenerate {label}")\<close> for the clip at cache position
  \<open>i\<close>, whose script line is at position \<open>k\<close>.\<close>

definition regenerate_clip :: "synth \<Rightarrow> nat \<Rightarrow> nat \<Rightarrow> string \<Rightarrow> session \<Rightarrow> outcome" where
  "regenerate_clip syn i k new_text st =
     (let speaker_name = speaker (script st ! k)
      in case voice_id_for st speaker_name of
           Inl e \<Rightarrow> (st, Some e)
         | Inr v \<Rightarrow>
             (case generate_audio syn st new_text v speaker_name of
                Inl e \<Rightarrow> (st, Some e)
              | Inr new_audio \<Rightarrow>
                  (st\<lparr>script := (script st)[k := (script st ! k)\<lparr>line_text := new_text\<rparr>],
                      audio_segments :=
                        (audio_segments st)[i := (fst (audio_segments st ! i), Some new_audio)]\<rparr>,
                   None)))"

text \<open>
  The display loop over the cache from position \<open>i\<close> on. \<open>pressed\<close> is the position of
  the "Regenerate" button that was pressed, if any, and \<open>new_text\<close> the content of its
  text area; the run ends (\<^verbatim>\<open>st.rerun()\<close>) after a regeneration.
\<close>

fun segments_loop :: "synth \<Rightarrow> nat option \<Rightarrow> string \<Rightarrow> nat \<Rightarrow> clip list \<Rightarrow> session \<Rightarrow> outcome" where
  "segments_loop syn pressed new_text i [] st = (st, None)"
| "segments_loop syn pressed new_text i (c # rest) st =
     (case clip_target st c of
        Inl e \<Rightarrow> (st, Some e)
      | Inr k \<Rightarrow>
          if pressed = Some i then regenerate_clip syn i k new_text st
          else segments_loop syn pressed new_text (i + 1) rest st)"

text \<open>Pressing "Regenerate" on the clip at cache position \<open>i\<close>, with \<open>new_text\<close> in its
  text area.\<close>

definition regenerate :: "synth \<Rightarrow> nat \<Rightarrow> string \<Rightarrow> session \<Rightarrow> outcome" where
  "regenerate syn i new_text st = segments_loop syn (Some i) new_text 0 (audio_segments st) st"

section \<open>Step 6: assembling the three segments\<close>

record buckets =
  intro_audio :: AudioSegment
  hosts_discussion :: AudioSegment
  outro_audio :: AudioSegment

text \<open>\<^verbatim>\<open>audio + pause\<close>: \<^verbatim>\<open>None + AudioSegment\<close> raises \<^verbatim>\<open>TypeError\<close>.\<close>

definition add_pause :: "AudioSegment option \<Rightarrow> error + AudioSegment" where
  "add_pause audio =
     (case audio of
        None \<Rightarrow> Inl TypeError
      | Some a \<Rightarrow> Inr (a @ silent 300))"

text \<open>The loop \<^verbatim>\<open>for i, (label, audio) in enumerate(audio_segments)\<close> of \<^verbatim>\<open>step_6\<close>;
  \<open>n\<close> is \<^verbatim>\<open>len(st.session_state.audio_segments)\<close>.\<close>

fun assemble_loop :: "nat \<Rightarrow> nat \<Rightarrow> clip list \<Rightarrow> buckets \<Rightarrow> error + buckets" where
  "assemble_loop n i [] b = Inr b"
| "assemble_loop n i ((label, audio) # rest) b =
     (case add_pause audio of
        Inl e \<Rightarrow> Inl e
      | Inr seg \<Rightarrow>
          if i = 0 then
            assemble_loop n (i + 1) rest (b\<lparr>intro_audio := intro_audio b @ seg\<rparr>)
          else if int i = int n - 1 then
            assemble_loop n (i + 1) rest (b\<lparr>outro_audio := outro_audio b @ seg\<rparr>)
          else
            assemble_loop n (i + 1) rest (b\<lparr>hosts_discussion := hosts_discussion b @ seg\<rparr>))"

definition assemble :: "clip list \<Rightarrow> error + buckets" where
  "assemble segments =
     assemble_loop (length segments) 0 segments
       \<lparr>intro_audio = [], hosts_discussion = [], outro_audio = []\<rparr>"

text \<open>\<^verbatim>\<open>x.export(format="mp3").read() if len(x) > 0 else None\<close>; the MP3 encoder is the
  parameter \<open>export\<close>.\<close>

definition bucket_bytes :: "(AudioSegment \<Rightarrow> bytes) \<Rightarrow> AudioSegment \<Rightarrow> bytes option" where
  "bucket_bytes export x = (if length x > 0 then Some (export x) else None)"

text \<open>The three payloads handed to \<^verbatim>\<open>database.save_podcast\<close>, in the order
  intro, hosts discussion, outro.\<close>

definition assemble_bytes ::
  "(AudioSegment \<Rightarrow> bytes) \<Rightarrow> clip list \<Rightarrow> error + (bytes option \<times> bytes option \<times> bytes option)" where
  "assemble_bytes export segments =
     (case assemble segments of
        Inl e \<Rightarrow> Inl e
      | Inr b \<Rightarrow>
          Inr (bucket_bytes export (intro_audio b),
               bucket_bytes export (hosts_discussion b),
               bucket_bytes export (outro_audio b)))"

section \<open>Python values and JSON\<close>

text \<open>
  The values that \<^verbatim>\<open>json.loads\<close> returns and \<^verbatim>\<open>json.dumps\<close> accepts. A dictionary
  is an association list in insertion order; in a dictionary of Python no two keys are
  equal.
\<close>

datatype py =
    PNone
  | PBool bool
  | PInt int
  | PFloat real
  | PStr string
  | PList "py list"
  | PTuple "py list"
  | PDict "(py \<times> py) list"

text \<open>A JSON document. A number without fraction and exponent is read as an integer,
  any other number as a float.\<close>

datatype json =
    JNull
  | JBool bool
  | JInt int
  | JFloat real
  | JString string
  | JArray "json list"
  | JObject "(string \<times> json) list"

text \<open>\<^verbatim>\<open>bool(x)\<close>, as in \<^verbatim>\<open>if x:\<close>.\<close>

definition truthy :: "py \<Rightarrow> bool" where
  "truthy x =
     (case x of
        PNone \<Rightarrow> False
      | PBool b \<Rightarrow> b
      | PInt i \<Rightarrow> i \<noteq> 0
      | PFloat f \<Rightarrow> f \<noteq> 0
      | PStr s \<Rightarrow> s \<noteq> []
      | PList xs \<Rightarrow> xs \<noteq> []
      | PTuple xs \<Rightarrow> xs \<noteq> []
      | PDict kvs \<Rightarrow> kvs \<noteq> [])"

text \<open>
  The name \<^verbatim>\<open>json.dumps\<close> writes for a dictionary key: a string is written as it is;
  a number, a truth value and \<^verbatim>\<open>None\<close> are turned into their JSON text; any other key
  raises \<^verbatim>\<open>TypeError\<close>. The text of a float is the parameter \<open>float_repr\<close>.
\<close>

definition key_text :: "(real \<Rightarrow> string) \<Rightarrow> py \<Rightarrow> error + string" where
  "key_text float_repr k =
     (case k of
        PStr s \<Rightarrow> Inr s
      | PFloat f \<Rightarrow> Inr (float_repr f)
      | PBool b \<Rightarrow> Inr (if b then ''true'' else ''false'')
      | PNone \<Rightarrow> Inr ''null''
      | PInt i \<Rightarrow> Inr (str_int i)
      | _ \<Rightarrow> Inl TypeError)"

text \<open>\<^verbatim>\<open>json.dumps\<close>: a list and a tuple both become an array.\<close>

fun json_dumps :: "(real \<Rightarrow> string) \<Rightarrow> py \<Rightarrow> error + json"
  and dumps_list :: "(real \<Rightarrow> string) \<Rightarrow> py list \<Rightarrow> error + json list"
  and dumps_items :: "(real \<Rightarrow> string) \<Rightarrow> (py \<times> py) list \<Rightarrow> error + (string \<times> json) list" where
  "json_dumps r PNone = Inr JNull"
| "json_dumps r (PBool b) = Inr (JBool b)"
| "json_dumps r (PInt i) = Inr (JInt i)"
| "json_dumps r (PFloat f) = Inr (JFloat f)"
| "json_dumps r (PStr s) = Inr (JString s)"
| "json_dumps r (PList xs) =
     (case dumps_list r xs of Inl e \<Rightarrow> Inl e | Inr js \<Rightarrow> Inr (JArray js))"
| "json_dumps r (PTuple xs) =
     (case dumps_list r xs of Inl e \<Rightarrow> Inl e | Inr js \<Rightarrow> Inr (JArray js))"
| "json_dumps r (PDict kvs) =
     (case dumps_items r kvs of Inl e \<Rightarrow> Inl e | Inr js \<Rightarrow> Inr (JObject js))"
| "dumps_list r [] = Inr []"
| "dumps_list r (x # xs) =
     (case json_dumps r x of
        Inl e \<Rightarrow> Inl e
      | Inr j \<Rightarrow> (case dumps_list r xs of Inl e \<Rightarrow> Inl e | Inr js \<Rightarrow> Inr (j # js)))"
| "dumps_items r [] = Inr []"
| "dumps_items r ((k, v) # kvs) =
     (case key_text r k of
        Inl e \<Rightarrow> Inl e
      | Inr name \<Rightarrow>
          (case json_dumps r v of
             Inl e \<Rightarrow> Inl e
           | Inr j \<Rightarrow>
               (case dumps_items r kvs of
                  Inl e \<Rightarrow> Inl e
                | Inr js \<Rightarrow> Inr ((name, j) # js))))"

text \<open>The dictionary built from a sequence of pairs: a later pair with a key that is
  already there replaces the value and keeps the place.\<close>

definition dict_of :: "('k \<times> 'v) list \<Rightarrow> ('k \<times> 'v) list" where
  "dict_of pairs = fold (\<lambda>(k, v). AList.update k v) pairs []"

text \<open>\<^verbatim>\<open>json.loads\<close>: every array becomes a list, every name of an object a string key.\<close>

fun json_loads :: "json \<Rightarrow> py"
  and loads_list :: "json list \<Rightarrow> py list"
  and loads_items :: "(string \<times> json) list \<Rightarrow> (py \<times> py) list" where
  "json_loads JNull = PNone"
| "json_loads (JBool b) = PBool b"
| "json_loads (JInt i) = PInt i"
| "json_loads (JFloat f) = PFloat f"
| "json_loads (JString s) = PStr s"
| "json_loads (JArray js) = PList (loads_list js)"
| "json_loads (JObject kvs) = PDict (dict_of (loads_items kvs))"
| "loads_list [] = []"
| "loads_list (j # js) = json_loads j # loads_list js"
| "loads_items [] = []"
| "loads_items ((name, j) # kvs) = (PStr name, json_loads j) # loads_items kvs"

section \<open>The database\<close>

text \<open>
  The three tables of \<^verbatim>\<open>podcast.db\<close>, each a list of rows in insertion order, and the
  \<^verbatim>\<open>AUTOINCREMENT\<close> counters of SQLite. The time stamp columns that SQLite fills in by
  itself are left out.
\<close>

record podcast_row =
  p_id :: nat
  p_title :: string

record segment_row =
  s_id :: nat
  s_podcast_id :: nat
  segment_type :: string
  audio_data :: bytes

text \<open>The \<^verbatim>\<open>TEXT\<close> columns of the table \<^verbatim>\<open>progress\<close> hold JSON documents; a column
  is kept as the document its text denotes.\<close>

record progress_row =
  g_id :: nat
  g_name :: string
  g_script :: json
  g_config :: json
  g_audio_segments :: "json option"
  g_created_at :: string

record database =
  podcasts :: "podcast_row list"
  podcast_segments :: "segment_row list"
  progress :: "progress_row list"
  podcasts_seq :: nat
  segments_seq :: nat
  progress_seq :: nat

text \<open>The row id an \<^verbatim>\<open>AUTOINCREMENT\<close> column gets: one more than the largest id the
  table has ever held.\<close>

definition next_id :: "nat \<Rightarrow> nat list \<Rightarrow> nat" where
  "next_id seq ids = fold max ids seq + 1"

definition insert_podcast :: "string \<Rightarrow> database \<Rightarrow> database \<times> nat" where
  "insert_podcast title_value db =
     (let podcast_id = next_id (podcasts_seq db) (map p_id (podcasts db))
      in (db\<lparr>podcasts := podcasts db @ [\<lparr>p_id = podcast_id, p_title = title_value\<rparr>],
             podcasts_seq := podcast_id\<rparr>,
          podcast_id))"

definition insert_segment :: "nat \<Rightarrow> string \<Rightarrow> bytes \<Rightarrow> database \<Rightarrow> database" where
  "insert_segment podcast_id kind data db =
     (let segment_id = next_id (segments_seq db) (map s_id (podcast_segments db))
      in db\<lparr>podcast_segments := podcast_segments db @
               [\<lparr>s_id = segment_id, s_podcast_id = podcast_id, segment_type = kind,
                 audio_data = data\<rparr>],
            segments_seq := segment_id\<rparr>)"

text \<open>
  \<^verbatim>\<open>if audio: c.execute('INSERT INTO podcast_segments ...')\<close>: \<^verbatim>\<open>None\<close> and the empty
  byte string are false. \<open>fault\<close> is the exception the statement raises, if it does.
\<close>

definition save_segment ::
  "error option \<Rightarrow> nat \<Rightarrow> string \<Rightarrow> bytes option \<Rightarrow> database \<Rightarrow> error + database" where
  "save_segment fault podcast_id kind audio db =
     (case audio of
        None \<Rightarrow> Inr db
      | Some data \<Rightarrow>
          if data = [] then Inr db
          else (case fault of
                  Some e \<Rightarrow> Inl e
                | None \<Rightarrow> Inr (insert_segment podcast_id kind data db)))"

text \<open>
  \<^verbatim>\<open>save_podcast\<close>. The statements of the transaction are numbered: 0 the insertion of
  the podcast, 1 to 3 the insertions of the segments, 4 the commit; \<open>fault k\<close> is the
  exception statement \<open>k\<close> raises, if it does. The handler rolls back, which restores the
  database of the start, and raises the exception again.
\<close>

definition save_podcast ::
  "(nat \<Rightarrow> error option) \<Rightarrow> string \<Rightarrow> bytes option \<Rightarrow> bytes option \<Rightarrow> bytes option \<Rightarrow>
   database \<Rightarrow> database \<times> (error + nat)" where
  "save_podcast fault title_value intro hosts outro db =
     (case fault 0 of
        Some e \<Rightarrow> (db, Inl e)
      | None \<Rightarrow>
          (let (w0, podcast_id) = insert_podcast title_value db
           in case save_segment (fault 1) podcast_id ''intro'' intro w0 of
                Inl e \<Rightarrow> (db, Inl e)
              | Inr w1 \<Rightarrow>
                  (case save_segment (fault 2) podcast_id ''hosts_discussion'' hosts w1 of
                     Inl e \<Rightarrow> (db, Inl e)
                   | Inr w2 \<Rightarrow>
                       (case save_segment (fault 3) podcast_id ''outro'' outro w2 of
                          Inl e \<Rightarrow> (db, Inl e)
                        | Inr w3 \<Rightarrow>
                            (case fault 4 of
                               Some e \<Rightarrow> (db, Inl e)
                             | None \<Rightarrow> (w3, Inr podcast_id))))))"

text \<open>\<^verbatim>\<open>get_podcast_segments\<close>: a dictionary from segment type to audio data.\<close>

definition get_podcast_segments :: "nat \<Rightarrow> database \<Rightarrow> (string \<times> bytes) list" where
  "get_podcast_segments podcast_id db =
     fold (\<lambda>r d. AList.update (segment_type r) (audio_data r) d)
       (filter (\<lambda>r. s_podcast_id r = podcast_id) (podcast_segments db)) []"

section \<open>Step 6: finalizing\<close>

datatype button = FinalizePodcast | ProceedToPlay

text \<open>The button \<^verbatim>\<open>step_6\<close> draws, if it draws one.\<close>

definition step_6_button :: "session \<Rightarrow> string \<Rightarrow> string \<Rightarrow> button option" where
  "step_6_button st company podcast_title =
     (if audio_segments st = [] then None
      else if strip company = [] \<or> strip podcast_title = [] then None
      else if podcast_finalized st \<noteq> Some True then Some FinalizePodcast
      else Some ProceedToPlay)"

text \<open>
  One run of \<^verbatim>\<open>step_6\<close>; \<open>pressed\<close> says that the button the page draws was pressed.
  The assembly loop stands outside the \<^verbatim>\<open>try\<close>, so its exception escapes; an exception
  of \<^verbatim>\<open>save_podcast\<close> is caught and shown.
\<close>

definition step_6 ::
  "(AudioSegment \<Rightarrow> bytes) \<Rightarrow> (nat \<Rightarrow> error option) \<Rightarrow> string \<Rightarrow> string \<Rightarrow> bool \<Rightarrow>
   session \<times> database \<Rightarrow> (session \<times> database) \<times> error option" where
  "step_6 export fault company podcast_title pressed sd =
     (let st = fst sd; db = snd sd
      in if audio_segments st = [] then ((st, db), None)
         else if strip company = [] \<or> strip podcast_title = [] then ((st, db), None)
         else
           (let st1 = (if podcast_finalized st = None
                       then st\<lparr>podcast_finalized := Some False\<rparr> else st)
            in if podcast_finalized st1 \<noteq> Some True then
                 (if pressed then
                    (case assemble_bytes export (audio_segments st1) of
                       Inl e \<Rightarrow> ((st1, db), Some e)
                     | Inr (intro_bytes, hosts_bytes, outro_bytes) \<Rightarrow>
                         (case save_podcast fault (strip company @ '' '' @ strip podcast_title)
                                 intro_bytes hosts_bytes outro_bytes db of
                            (db', Inr podcast_id) \<Rightarrow>
                              ((st1\<lparr>podcast_finalized := Some True\<rparr>, db'), None)
                          | (db', Inl e) \<Rightarrow> ((st1, db'), None)))
                  else ((st1, db), None))
               else (if pressed then ((st1\<lparr>current_step := 7\<rparr>, db), None)
                     else ((st1, db), None))))"

section \<open>Saving and loading progress\<close>

text \<open>
  \<^verbatim>\<open>save_progress\<close>; \<open>now\<close> is the formatted time of the call. The three documents
  are written by \<^verbatim>\<open>json.dumps\<close> before the row is inserted; clips that are false (the
  default \<^verbatim>\<open>None\<close>, an empty list) are stored as \<^verbatim>\<open>NULL\<close>.
\<close>

definition save_progress ::
  "(real \<Rightarrow> string) \<Rightarrow> string \<Rightarrow> string \<Rightarrow> py \<Rightarrow> py \<Rightarrow> py \<Rightarrow> database \<Rightarrow> error + database" where
  "save_progress float_repr now name_value script_value config_value segments db =
     (case json_dumps float_repr script_value of
        Inl e \<Rightarrow> Inl e
      | Inr script_json \<Rightarrow>
          (case json_dumps float_repr config_value of
             Inl e \<Rightarrow> Inl e
           | Inr config_json \<Rightarrow>
               (case (if truthy segments
                      then (case json_dumps float_repr segments of
                              Inl e \<Rightarrow> Inl e
                            | Inr j \<Rightarrow> Inr (Some j))
                      else Inr None) of
                  Inl e \<Rightarrow> Inl e
                | Inr segments_json \<Rightarrow>
                    (let progress_id = next_id (progress_seq db) (map g_id (progress db))
                     in Inr (db\<lparr>progress := progress db @
                                  [\<lparr>g_id = progress_id, g_name = name_value,
                                    g_script = script_json, g_config = config_json,
                                    g_audio_segments = segments_json,
                                    g_created_at = now\<rparr>],
                                progress_seq := progress_id\<rparr>)))))"

text \<open>The id of the row the next \<^verbatim>\<open>save_progress\<close> inserts, as \<^verbatim>\<open>get_all_progress\<close> lists
  it afterwards.\<close>

definition new_progress_id :: "database \<Rightarrow> nat" where
  "new_progress_id db = next_id (progress_seq db) (map g_id (progress db))"

text \<open>The dictionary \<^verbatim>\<open>load_progress_by_id\<close> returns.\<close>

record loaded_progress =
  loaded_script :: py
  loaded_config :: py
  loaded_audio_segments :: py

text \<open>\<^verbatim>\<open>load_progress_by_id\<close>: \<open>None\<close> when no row has the id.\<close>

definition load_progress_by_id :: "nat \<Rightarrow> database \<Rightarrow> loaded_progress option" where
  "load_progress_by_id progress_id db =
     (case find (\<lambda>r. g_id r = progress_id) (progress db) of
        None \<Rightarrow> None
      | Some row \<Rightarrow>
          Some \<lparr>loaded_script = json_loads (g_script row),
                loaded_config = json_loads (g_config row),
                loaded_audio_segments =
                  (case g_audio_segments row of None \<Rightarrow> PNone | Some j \<Rightarrow> json_loads j)\<rparr>)"

definition delete_progress :: "nat \<Rightarrow> database \<Rightarrow> database" where
  "delete_progress progress_id db =
     db\<lparr>progress := filter (\<lambda>r. g_id r \<noteq> progress_id) (progress db)\<rparr>"

text \<open>
  The session of the model is typed: a speaker, a text, a voice name are strings. The
  script, the configuration and the serialized clips of a session as the Python values
  they are.
\<close>

definition py_of_line :: "DialogueLine \<Rightarrow> py" where
  "py_of_line line =
     PDict ([(PStr ''speaker'', PStr (speaker line)), (PStr ''text'', PStr (line_text line))] @
            (case uid line of None \<Rightarrow> [] | Some u \<Rightarrow> [(PStr ''uid'', PStr u)]))"

definition py_of_script :: "DialogueLine list \<Rightarrow> py" where
  "py_of_script lines = PList (map py_of_line lines)"

definition py_of_settings :: "settings \<Rightarrow> py" where
  "py_of_settings vs =
     PDict [(PStr ''stability'', PFloat (stability vs)),
            (PStr ''similarity_boost'', PFloat (similarity_boost vs)),
            (PStr ''style'', PFloat (style vs))]"

definition py_of_config :: "config \<Rightarrow> py" where
  "py_of_config c =
     PDict ([(PStr ''intro_text'', PStr (intro_text c)),
             (PStr ''intro_voice'', PStr (intro_voice c)),
             (PStr ''outro_text'', PStr (outro_text c)),
             (PStr ''outro_voice'', PStr (outro_voice c)),
             (PStr ''intro_music'', (case intro_music c of None \<Rightarrow> PNone | Some m \<Rightarrow> PStr m)),
             (PStr ''podcasters'', PDict (map (\<lambda>(k, v). (PStr k, PStr v)) (podcasters c))),
             (PStr ''voice_settings'', py_of_settings (voice_settings c))] @
            (case voice_settings_per_speaker c of
               None \<Rightarrow> []
             | Some m \<Rightarrow>
                 [(PStr ''voice_settings_per_speaker'',
                   PDict (map (\<lambda>(k, v). (PStr k, py_of_settings v)) m))]))"

definition py_of_segments :: "(string \<times> string option) list \<Rightarrow> py" where
  "py_of_segments segments =
     PList (map (\<lambda>(label, b64_audio).
                   PTuple [PStr label, (case b64_audio of None \<Rightarrow> PNone | Some a \<Rightarrow> PStr a)])
              segments)"

text \<open>
  A loaded value read back into the typed session, at the keys the application uses;
  \<open>None\<close> when the value is one the typed session cannot hold (the application stores
  any loaded value as it is).
\<close>

definition str_of_py :: "py \<Rightarrow> string option" where
  "str_of_py x = (case x of PStr s \<Rightarrow> Some s | _ \<Rightarrow> None)"

definition optional_str_of_py :: "py \<Rightarrow> string option option" where
  "optional_str_of_py x =
     (case x of PNone \<Rightarrow> Some None | PStr s \<Rightarrow> Some (Some s) | _ \<Rightarrow> None)"

definition float_of_py :: "py \<Rightarrow> real option" where
  "float_of_py x = (case x of PFloat f \<Rightarrow> Some f | _ \<Rightarrow> None)"

definition line_of_py :: "py \<Rightarrow> DialogueLine option" where
  "line_of_py x =
     (case x of
        PDict kvs \<Rightarrow>
          (case (Option.bind (map_of kvs (PStr ''speaker'')) str_of_py,
                 Option.bind (map_of kvs (PStr ''text'')) str_of_py,
                 (case map_of kvs (PStr ''uid'') of
                    None \<Rightarrow> Some None
                  | Some u \<Rightarrow> map_option Some (str_of_py u))) of
             (Some s, Some t, Some u) \<Rightarrow> Some \<lparr>uid = u, speaker = s, line_text = t\<rparr>
           | _ \<Rightarrow> None)
      | _ \<Rightarrow> None)"

definition script_of_py :: "py \<Rightarrow> DialogueLine list option" where
  "script_of_py x = (case x of PList items \<Rightarrow> those (map line_of_py items) | _ \<Rightarrow> None)"

definition settings_of_py :: "py \<Rightarrow> settings option" where
  "settings_of_py x =
     (case x of
        PDict kvs \<Rightarrow>
          (case (Option.bind (map_of kvs (PStr ''stability'')) float_of_py,
                 Option.bind (map_of kvs (PStr ''similarity_boost'')) float_of_py,
                 Option.bind (map_of kvs (PStr ''style'')) float_of_py) of
             (Some a, Some b, Some c) \<Rightarrow>
               Some \<lparr>stability = a, similarity_boost = b, style = c\<rparr>
           | _ \<Rightarrow> None)
      | _ \<Rightarrow> None)"

definition dict_of_py :: "(py \<Rightarrow> 'a option) \<Rightarrow> py \<Rightarrow> (string \<times> 'a) list option" where
  "dict_of_py value x =
     (case x of
        PDict kvs \<Rightarrow>
          those (map (\<lambda>(k, v). case (str_of_py k, value v) of
                                  (Some name, Some a) \<Rightarrow> Some (name, a)
                                | _ \<Rightarrow> None) kvs)
      | _ \<Rightarrow> None)"

definition config_of_py :: "py \<Rightarrow> config option" where
  "config_of_py x =
     (case x of
        PDict kvs \<Rightarrow>
          (case (Option.bind (map_of kvs (PStr ''intro_text'')) str_of_py,
                 Option.bind (map_of kvs (PStr ''intro_voice'')) str_of_py,
                 Option.bind (map_of kvs (PStr ''outro_text'')) str_of_py,
                 Option.bind (map_of kvs (PStr ''outro_voice'')) str_of_py,
                 Option.bind (map_of kvs (PStr ''intro_music'')) optional_str_of_py,
                 Option.bind (map_of kvs (PStr ''podcasters'')) (dict_of_py str_of_py),
                 Option.bind (map_of kvs (PStr ''voice_settings'')) settings_of_py,
                 (case map_of kvs (PStr ''voice_settings_per_speaker'') of
                    None \<Rightarrow> Some None
                  | Some m \<Rightarrow> map_option Some (dict_of_py settings_of_py m))) of
             (Some it, Some iv, Some ot, Some ov, Some im, Some ps, Some vs, Some per) \<Rightarrow>
               Some \<lparr>intro_text = it, intro_voice = iv, outro_text = ot, outro_voice = ov,
                     intro_music = im, podcasters = ps, voice_settings = vs,
                     voice_settings_per_speaker = per\<rparr>
           | _ \<Rightarrow> None)
      | _ \<Rightarrow> None)"

text \<open>\<^verbatim>\<open>for label, b64_audio in loaded['audio_segments']\<close>: every item is a sequence of two
  values.\<close>

definition segment_of_py :: "py \<Rightarrow> (string \<times> string option) option" where
  "segment_of_py x =
     (case (case x of PList items \<Rightarrow> Some items | PTuple items \<Rightarrow> Some items | _ \<Rightarrow> None) of
        Some [label, b64_audio] \<Rightarrow>
          (case (str_of_py label, optional_str_of_py b64_audio) of
             (Some l, Some a) \<Rightarrow> Some (l, a)
           | _ \<Rightarrow> None)
      | _ \<Rightarrow> None)"

definition segments_of_py :: "py \<Rightarrow> (string \<times> string option) list option" where
  "segments_of_py x = (case x of PList items \<Rightarrow> those (map segment_of_py items) | _ \<Rightarrow> None)"

text \<open>
  The "Save Progress" button: every clip whose audio is true (not \<^verbatim>\<open>None\<close> and of
  non-zero length) is exported and encoded in base 64; the encoder \<open>export\<close> and
  \<open>b64encode\<close> are parameters.
\<close>

definition serialize_clip :: "(AudioSegment \<Rightarrow> bytes) \<Rightarrow> (bytes \<Rightarrow> string) \<Rightarrow> clip \<Rightarrow> string \<times> string option" where
  "serialize_clip export b64encode c =
     (case snd c of
        None \<Rightarrow> (fst c, None)
      | Some audio \<Rightarrow>
          if length audio > 0 then (fst c, Some (b64encode (export audio)))
          else (fst c, None))"

definition save_progress_button ::
  "(AudioSegment \<Rightarrow> bytes) \<Rightarrow> (bytes \<Rightarrow> string) \<Rightarrow> (real \<Rightarrow> string) \<Rightarrow> string \<Rightarrow> string \<Rightarrow>
   session \<times> database \<Rightarrow> (session \<times> database) \<times> error option" where
  "save_progress_button export b64encode float_repr now progress_name sd =
     (if strip progress_name \<noteq> []
      then (case save_progress float_repr now (strip progress_name)
                   (py_of_script (script (fst sd))) (py_of_config (config (fst sd)))
                   (py_of_segments (map (serialize_clip export b64encode) (audio_segments (fst sd))))
                   (snd sd) of
              Inl e \<Rightarrow> (sd, Some e)
            | Inr db' \<Rightarrow> ((fst sd, db'), None))
      else (sd, None))"

text \<open>
  The "Load Selected Progress" button; \<open>b64decode\<close> and the MP3 decoder \<open>from_mp3\<close> are
  parameters and may raise. The script and the configuration are replaced before the
  clips are decoded. A loaded value that the typed session cannot hold is reported as
  \<^verbatim>\<open>TypeError\<close>.
\<close>

fun deserialize_clips ::
  "(string \<Rightarrow> error + bytes) \<Rightarrow> (bytes \<Rightarrow> error + AudioSegment) \<Rightarrow>
   (string \<times> string option) list \<Rightarrow> error + clip list" where
  "deserialize_clips b64decode from_mp3 [] = Inr []"
| "deserialize_clips b64decode from_mp3 ((label, b64_audio) # rest) =
     (case (case b64_audio of
              None \<Rightarrow> Inr (label, None)
            | Some a \<Rightarrow>
                if a = [] then Inr (label, None)
                else (case b64decode a of
                        Inl e \<Rightarrow> Inl e
                      | Inr audio_bytes \<Rightarrow>
                          (case from_mp3 audio_bytes of
                             Inl e \<Rightarrow> Inl e
                           | Inr audio \<Rightarrow> Inr (label, Some audio)))) of
        Inl e \<Rightarrow> Inl e
      | Inr c \<Rightarrow>
          (case deserialize_clips b64decode from_mp3 rest of
             Inl e \<Rightarrow> Inl e
           | Inr cs \<Rightarrow> Inr (c # cs)))"

definition load_progress_button ::
  "(string \<Rightarrow> error + bytes) \<Rightarrow> (bytes \<Rightarrow> error + AudioSegment) \<Rightarrow> nat \<Rightarrow> database \<Rightarrow>
   session \<Rightarrow> outcome" where
  "load_progress_button b64decode from_mp3 progress_id db st =
     (case load_progress_by_id progress_id db of
        None \<Rightarrow> (st, None)
      | Some loaded \<Rightarrow>
          (case (script_of_py (loaded_script loaded), config_of_py (loaded_config loaded)) of
             (Some loaded_lines, Some loaded_conf) \<Rightarrow>
               (let st1 = st\<lparr>script := loaded_lines, config := loaded_conf\<rparr>
                in if truthy (loaded_audio_segments loaded)
                   then (case segments_of_py (loaded_audio_segments loaded) of
                           None \<Rightarrow> (st1, Some TypeError)
                         | Some segments \<Rightarrow>
                             (case deserialize_clips b64decode from_mp3 segments of
                                Inl e \<Rightarrow> (st1, Some e)
                              | Inr cs \<Rightarrow> (st1\<lparr>audio_segments := cs\<rparr>, None)))
                   else (st1\<lparr>audio_segments := []\<rparr>, None))
           | _ \<Rightarrow> (st, Some TypeError)))"

text \<open>
  The snapshots that a round trip restores, in the words of the specification's data
  model: every dictionary key is a string (and, as in any dictionary, no key occurs
  twice); and the value a snapshot comes back as: its tuples are lists.
\<close>

fun str_keys :: "py \<Rightarrow> bool"
  and str_keys_list :: "py list \<Rightarrow> bool"
  and str_keys_items :: "(py \<times> py) list \<Rightarrow> bool" where
  "str_keys (PList xs) = str_keys_list xs"
| "str_keys (PTuple xs) = str_keys_list xs"
| "str_keys (PDict kvs) = str_keys_items kvs"
| "str_keys x = True"
| "str_keys_list [] = True"
| "str_keys_list (x # xs) = (str_keys x \<and> str_keys_list xs)"
| "str_keys_items [] = True"
| "str_keys_items ((k, v) # kvs) =
     ((case k of PStr s \<Rightarrow> True | _ \<Rightarrow> False) \<and> k \<notin> fst ` set kvs \<and> str_keys v
      \<and> str_keys_items kvs)"

fun untuple :: "py \<Rightarrow> py"
  and untuple_list :: "py list \<Rightarrow> py list"
  and untuple_items :: "(py \<times> py) list \<Rightarrow> (py \<times> py) list" where
  "untuple (PList xs) = PList (untuple_list xs)"
| "untuple (PTuple xs) = PList (untuple_list xs)"
| "untuple (PDict kvs) = PDict (untuple_items kvs)"
| "untuple x = x"
| "untuple_list [] = []"
| "untuple_list (x # xs) = untuple x # untuple_list xs"
| "untuple_items [] = []"
| "untuple_items ((k, v) # kvs) = (k, untuple v) # untuple_items kvs"

text \<open>A configuration whose dictionaries hold no key twice, as the dictionaries of the
  session do.\<close>

definition distinct_keys :: "config \<Rightarrow> bool" where
  "distinct_keys c =
     (distinct (map fst (podcasters c))
      \<and> (case voice_settings_per_speaker c of None \<Rightarrow> True | Some m \<Rightarrow> distinct (map fst m)))"

section \<open>The specification's own terms\<close>

text \<open>The partition in the words of the specification: the first clip, the clips
  strictly between the first and the last, and the last clip when there are at least two.\<close>

definition spec_intro :: "'a list \<Rightarrow> 'a list" where
  "spec_intro clips = take 1 clips"

definition spec_discussion :: "'a list \<Rightarrow> 'a list" where
  "spec_discussion clips = butlast (tl clips)"

definition spec_outro :: "'a list \<Rightarrow> 'a list" where
  "spec_outro clips = (if 2 \<le> length clips then [last clips] else [])"

text \<open>A bucket in the words of the specification: every clip followed by 300 ms of
  silence, in order.\<close>

definition spec_bucket :: "AudioSegment list \<Rightarrow> AudioSegment" where
  "spec_bucket audios = concat (map (\<lambda>a. a @ replicate 300 0) audios)"

text \<open>A cache in which every clip has audio.\<close>

definition present :: "(string \<times> AudioSegment) list \<Rightarrow> clip list" where
  "present cs = map (\<lambda>(label, a). (label, Some a)) cs"

text \<open>
  The segment rows of a podcast in the words of the specification: one row for each of
  intro, hosts discussion and outro whose payload is given and non-empty, in that
  order; and the database after a committed \<^verbatim>\<open>save_podcast\<close>.
\<close>

definition provided_segment :: "string \<Rightarrow> bytes option \<Rightarrow> (string \<times> bytes) list" where
  "provided_segment kind audio =
     (case audio of None \<Rightarrow> [] | Some data \<Rightarrow> if data = [] then [] else [(kind, data)])"

definition provided_segments ::
  "bytes option \<Rightarrow> bytes option \<Rightarrow> bytes option \<Rightarrow> (string \<times> bytes) list" where
  "provided_segments intro hosts outro =
     provided_segment ''intro'' intro @ provided_segment ''hosts_discussion'' hosts @
     provided_segment ''outro'' outro"

definition committed ::
  "string \<Rightarrow> bytes option \<Rightarrow> bytes option \<Rightarrow> bytes option \<Rightarrow> database \<Rightarrow> database" where
  "committed title_value intro hosts outro db =
     fold (\<lambda>(kind, data). insert_segment (snd (insert_podcast title_value db)) kind data)
       (provided_segments intro hosts outro) (fst (insert_podcast title_value db))"

section \<open>The application as a transition system\<close>

text \<open>The collaborators of a session: the text-to-speech service, the MP3 encoder and
  decoder, base 64, and the statements of the database that fail.\<close>

record services =
  tts :: synth
  mp3_export :: "AudioSegment \<Rightarrow> bytes"
  mp3_decode :: "bytes \<Rightarrow> error + AudioSegment"
  b64_encode :: "bytes \<Rightarrow> string"
  b64_decode :: "string \<Rightarrow> error + bytes"
  float_repr_of :: "real \<Rightarrow> string"
  db_fault :: "nat \<Rightarrow> error option"

text \<open>
  One run of the Streamlit script is one event: what the operator did, with the values
  of the widgets involved. \<^verbatim>\<open>main\<close> first applies a sidebar button, then runs the
  function of the current step; an event of a step that is not the current one does
  nothing. The events are those of the sidebar and of steps 2 to 6; the library page
  (step 7), which lists, downloads and deletes saved podcasts and writes nothing to the
  session, is not part of the model.
\<close>

datatype event =
    Navigate nat
  | Proceed
  | LoadScript "DialogueLine list"
  | ImportScript "DialogueLine list"
  | RenderEdit "nat \<Rightarrow> string \<times> string"
  | AddBelow string nat
  | DeleteDialog nat
  | Configure string settings string
  | GenerateAll
  | Regenerate nat string
  | SaveProgress string string
  | LoadProgress nat
  | DeleteProgress nat
  | Finalize string string bool

fun handle :: "services \<Rightarrow> event \<Rightarrow> session \<times> database \<Rightarrow> session \<times> database" where
  "handle svc (Navigate clicked_step) (st, db) =
     (if clicked_step < 6 then (st\<lparr>current_step := int clicked_step + 2\<rparr>, db) else (st, db))"
| "handle svc Proceed (st, db) =
     (if 2 \<le> current_step st \<and> current_step st \<le> 5
      then (st\<lparr>current_step := current_step st + 1\<rparr>, db) else (st, db))"
| "handle svc (LoadScript script_data) (st, db) =
     (if current_step st = 2 then (st\<lparr>script := script_data\<rparr>, db) else (st, db))"
| "handle svc (ImportScript imported_script) (st, db) =
     (if current_step st = 2 then (st\<lparr>script := imported_script, current_step := 3\<rparr>, db)
      else (st, db))"
| "handle svc (RenderEdit widgets) (st, db) =
     (if current_step st = 3 then (step_3 widgets st, db) else (st, db))"
| "handle svc (AddBelow new_uid i) (st, db) =
     (if current_step st = 3 \<and> i < length (script st) then (add_dialog_below new_uid i st, db)
      else (st, db))"
| "handle svc (DeleteDialog i) (st, db) =
     (if current_step st = 3 \<and> i < length (script st) then (delete_dialog i st, db)
      else (st, db))"
| "handle svc (Configure selected sliders podcaster) (st, db) =
     (if current_step st = 4 \<and> podcaster \<in> speaker ` set (script st)
      then (fst (step_4_podcaster selected sliders podcaster st), db) else (st, db))"
| "handle svc GenerateAll (st, db) =
     (if current_step st = 5 then (fst (generate_all (tts svc) st), db) else (st, db))"
| "handle svc (Regenerate i new_text) (st, db) =
     (if current_step st = 5 then (fst (regenerate (tts svc) i new_text st), db) else (st, db))"
| "handle svc (SaveProgress now progress_name) (st, db) =
     (if current_step st = 5
      then fst (save_progress_button (mp3_export svc) (b64_encode svc) (float_repr_of svc) now
                  progress_name (st, db))
      else (st, db))"
| "handle svc (LoadProgress progress_id) (st, db) =
     (if current_step st = 5
      then (fst (load_progress_button (b64_decode svc) (mp3_decode svc) progress_id db st), db)
      else (st, db))"
| "handle svc (DeleteProgress progress_id) (st, db) =
     (if current_step st = 5 then (st, delete_progress progress_id db) else (st, db))"
| "handle svc (Finalize company podcast_title pressed) (st, db) =
     (if current_step st = 6
      then fst (step_6 (mp3_export svc) (db_fault svc) company podcast_title pressed (st, db))
      else (st, db))"

text \<open>The session and the database after a sequence of events.\<close>

definition run :: "services \<Rightarrow> event list \<Rightarrow> session \<times> database \<Rightarrow> session \<times> database" where
  "run svc events sd = foldl (\<lambda>s ev. handle svc ev s) sd events"

section \<open>Example states\<close>

definition example_config :: config where
  "example_config =
     \<lparr>intro_text = [], intro_voice = [], outro_text = [], outro_voice = [],
      intro_music = None, podcasters = [],
      voice_settings = \<lparr>stability = 0.5, similarity_boost = 0.8, style = 0.1\<rparr>,
      voice_settings_per_speaker = None\<rparr>"

definition example_voices :: "(string \<times> voice) list" where
  "example_voices =
     [(''Rachel'', \<lparr>voice_id = ''v1'', samples = []\<rparr>),
      (''Eric - calm'', \<lparr>voice_id = ''v2'', samples = []\<rparr>)]"

definition example_session :: session where
  "example_session =
     \<lparr>script = [], config = example_config, audio_segments = [], current_step = 2,
      available_voices = example_voices, podcast_finalized = None\<rparr>"

text \<open>A line whose text carries the intro marker and whose speaker field holds another
  name, as a JSON script can supply it, in a session that has a voice for both names.\<close>

definition marked_line :: DialogueLine where
  "marked_line = \<lparr>uid = None, speaker = ''Host 1'', line_text = ''Intro: Welcome''\<rparr>"

definition configured_session :: session where
  "configured_session =
     example_session
       \<lparr>script := [marked_line],
        config := example_config
          \<lparr>podcasters := [(''Host 1'', ''Rachel''), (''Presenter'', ''Eric - calm'')],
           voice_settings_per_speaker :=
             Some [(''Host 1'', \<lparr>stability = 0.5, similarity_boost = 0.8, style = 0.1\<rparr>),
                   (''Presenter'', \<lparr>stability = 0.5, similarity_boost = 0.8, style = 0.1\<rparr>)]\<rparr>\<rparr>"

text \<open>A synthesis service that rejects an empty text, and a session whose second line
  is empty, with a full cache from an earlier generation.\<close>

definition example_synth :: synth where
  "example_synth text v vs = (if text = [] then Inl SynthesisError else Inr [int (length text)])"

definition cached_session :: session where
  "cached_session =
     configured_session
       \<lparr>script := [\<lparr>uid = None, speaker = ''Presenter'', line_text = ''Welcome''\<rparr>,
                   \<lparr>uid = None, speaker = ''Host 1'', line_text = []\<rparr>],
        audio_segments := [(''Line 1'', Some [5]), (''Line 2'', Some [6])]\<rparr>"

text \<open>A cache as "Generate All Audio" builds it: the clip at position \<open>j\<close> carries the
  label of position \<open>j\<close>.\<close>

definition labelled :: "clip list \<Rightarrow> bool" where
  "labelled cache = (\<forall>j < length cache. fst (cache ! j) = line_label j)"

text \<open>A session of three lines with their three clips.\<close>

definition three_line_session :: session where
  "three_line_session =
     configured_session
       \<lparr>script := [\<lparr>uid = Some ''a'', speaker = ''Presenter'', line_text = ''Welcome''\<rparr>,
                   \<lparr>uid = Some ''b'', speaker = ''Host 1'', line_text = ''Hi''\<rparr>,
                   \<lparr>uid = Some ''c'', speaker = ''Presenter'', line_text = ''Bye''\<rparr>],
        audio_segments := [(''Line 1'', Some [7]), (''Line 2'', Some [2]), (''Line 3'', Some [3])]\<rparr>"

text \<open>Collaborators that never fail, an empty database, and the session of three lines
  at the finalize step.\<close>

definition example_services :: services where
  "example_services =
     \<lparr>tts = example_synth,
      mp3_export = map nat,
      mp3_decode = (\<lambda>b. Inr (map int b)),
      b64_encode = map char_of,
      b64_decode = (\<lambda>s. Inr (map of_char s)),
      float_repr_of = (\<lambda>f. ''0.5''),
      db_fault = (\<lambda>k. None)\<rparr>"

definition empty_database :: database where
  "empty_database =
     \<lparr>podcasts = [], podcast_segments = [], progress = [],
      podcasts_seq = 0, segments_seq = 0, progress_seq = 0\<rparr>"

definition ready_session :: session where
  "ready_session = three_line_session\<lparr>current_step := 6\<rparr>"

text \<open>
  A script whose speaker is the number 1, as the JSON loader of step 2 admits it, and
  the configuration after the configuration step has run on it: the speaker is the key
  of the two dictionaries. \<open>numbered_config_loaded\<close> is that configuration with the key
  written as the string "1".
\<close>

definition numbered_script :: py where
  "numbered_script = PList [PDict [(PStr ''speaker'', PInt 1), (PStr ''text'', PStr ''Hi'')]]"

definition numbered_config_with :: "py \<Rightarrow> py" where
  "numbered_config_with key =
     PDict [(PStr ''intro_text'', PStr []), (PStr ''intro_voice'', PStr []),
            (PStr ''outro_text'', PStr []), (PStr ''outro_voice'', PStr []),
            (PStr ''intro_music'', PNone),
            (PStr ''podcasters'', PDict [(key, PStr ''Rachel'')]),
            (PStr ''voice_settings'',
               PDict [(PStr ''stability'', PFloat 0.5), (PStr ''similarity_boost'', PFloat 0.8),
                      (PStr ''style'', PFloat 0.1)]),
            (PStr ''voice_settings_per_speaker'',
               PDict [(key,
                       PDict [(PStr ''stability'', PFloat 0.5),
                              (PStr ''similarity_boost'', PFloat 0.8),
                              (PStr ''style'', PFloat 0.1)])])]"

definition numbered_config :: py where
  "numbered_config = numbered_config_with (PInt 1)"

definition numbered_config_loaded :: py where
  "numbered_config_loaded = numbered_config_with (PStr ''1'')"

section \<open>Assembly: proofs\<close>

lemma length_present [simp]: "length (present cs) = length cs"
  by (simp add: present_def)

lemma assemble_loop_tail:
  "0 < i \<Longrightarrow> i + length cs = n \<Longrightarrow>
   assemble_loop n i (present cs) b =
     Inr (b\<lparr>hosts_discussion := hosts_discussion b @ spec_bucket (butlast (map snd cs)),
            outro_audio := outro_audio b @ spec_bucket (if cs = [] then [] else [last (map snd cs)])\<rparr>)"
proof (induction cs arbitrary: i b)
  case Nil
  then show ?case by (simp add: present_def spec_bucket_def)
next
  case (Cons c cs)
  obtain label a where c: "c = (label, a)" by (cases c)
  show ?case
  proof (cases "cs = []")
    case True
    with Cons.prems show ?thesis
      by (simp add: c present_def add_pause_def spec_bucket_def silent_def)
  next
    case False
    with Cons.prems have ni: "int i \<noteq> int n - 1" by auto
    have ih: "assemble_loop n (i + 1) (present cs) b' =
        Inr (b'\<lparr>hosts_discussion := hosts_discussion b' @ spec_bucket (butlast (map snd cs)),
               outro_audio := outro_audio b' @ spec_bucket [last (map snd cs)]\<rparr>)" for b'
      using Cons.IH [of "i + 1" b'] Cons.prems False by simp
    have "present (c # cs) = (label, Some a) # present cs"
      by (simp add: c present_def)
    then show ?thesis
      using Cons.prems ni False ih
      by (simp add: c add_pause_def spec_bucket_def silent_def)
  qed
qed

lemma assemble_present:
  "assemble (present cs) =
     Inr \<lparr>intro_audio = spec_bucket (map snd (spec_intro cs)),
          hosts_discussion = spec_bucket (map snd (spec_discussion cs)),
          outro_audio = spec_bucket (map snd (spec_outro cs))\<rparr>"
proof (cases cs)
  case Nil
  then show ?thesis
    by (simp add: assemble_def present_def spec_bucket_def spec_intro_def
        spec_discussion_def spec_outro_def)
next
  case (Cons c rest)
  obtain label a where c: "c = (label, a)" by (cases c)
  have p: "present (c # rest) = (label, Some a) # present rest"
    by (simp add: c present_def)
  have tail: "assemble_loop (length (c # rest)) 1 (present rest) b =
      Inr (b\<lparr>hosts_discussion := hosts_discussion b @ spec_bucket (butlast (map snd rest)),
             outro_audio := outro_audio b @
               spec_bucket (if rest = [] then [] else [last (map snd rest)])\<rparr>)" for b
    using assemble_loop_tail [of 1 rest "length (c # rest)" b] by simp
  have "assemble (present (c # rest)) =
      assemble_loop (length (c # rest)) 1 (present rest)
        \<lparr>intro_audio = a @ silent 300, hosts_discussion = [], outro_audio = []\<rparr>"
    by (simp add: assemble_def p add_pause_def)
  then show ?thesis
    unfolding Cons tail
    by (cases "rest = []")
       (simp_all add: silent_def spec_bucket_def spec_intro_def
          spec_discussion_def spec_outro_def c map_butlast last_map Suc_le_eq)
qed

lemma between_nth: "butlast (tl xs) = map ((!) xs) [1..<length xs - 1]"
  by (rule nth_equalityI) (simp_all add: nth_butlast nth_tl)

lemma spec_bucket_ends_silent:
  "spec_bucket audios \<noteq> [] \<Longrightarrow>
   drop (length (spec_bucket audios) - 300) (spec_bucket audios) = replicate 300 0"
proof (cases audios rule: rev_cases)
  case Nil
  then show "spec_bucket audios \<noteq> [] \<Longrightarrow> ?thesis" by (simp add: spec_bucket_def)
next
  case (snoc front a)
  then show ?thesis by (simp add: spec_bucket_def)
qed

lemma length_spec_bucket:
  "length (spec_bucket audios) = (\<Sum>a\<leftarrow>audios. length a + 300)"
  by (induction audios) (simp_all add: spec_bucket_def)

text \<open>
  C2. Assembly partitions a list of clips by position only. With \<open>N\<close> clips that all
  have audio: for \<open>N \<ge> 2\<close> the intro bucket is made of clip 1 only, the outro bucket of
  clip \<open>N\<close> only and the discussion bucket of clips 2 to \<open>N - 1\<close> in order; for \<open>N = 1\<close>
  the clip goes to the intro, and the discussion and the outro are reported as no audio;
  for \<open>N = 0\<close> all three are reported as no audio.
\<close>

theorem assemble_partitions_by_position:
  "assemble (present cs) =
     Inr \<lparr>intro_audio = spec_bucket (map snd (spec_intro cs)),
          hosts_discussion = spec_bucket (map snd (spec_discussion cs)),
          outro_audio = spec_bucket (map snd (spec_outro cs))\<rparr>
   \<and> (2 \<le> length cs \<longrightarrow>
        assemble (present cs) =
          Inr \<lparr>intro_audio = snd (cs ! 0) @ silent 300,
               hosts_discussion = spec_bucket (map (\<lambda>k. snd (cs ! k)) [1..<length cs - 1]),
               outro_audio = snd (cs ! (length cs - 1)) @ silent 300\<rparr>)
   \<and> (length cs = 1 \<longrightarrow>
        assemble_bytes export (present cs) =
          Inr (Some (export (snd (cs ! 0) @ silent 300)), None, None))
   \<and> (length cs = 0 \<longrightarrow> assemble_bytes export (present cs) = Inr (None, None, None))"
proof (intro conjI impI)
  show "assemble (present cs) =
     Inr \<lparr>intro_audio = spec_bucket (map snd (spec_intro cs)),
          hosts_discussion = spec_bucket (map snd (spec_discussion cs)),
          outro_audio = spec_bucket (map snd (spec_outro cs))\<rparr>"
    by (rule assemble_present)
next
  assume n: "2 \<le> length cs"
  then obtain c rest where cs: "cs = c # rest" by (cases cs) auto
  have "map snd (spec_discussion cs) = map (\<lambda>k. snd (cs ! k)) [1..<length cs - 1]"
    by (simp add: spec_discussion_def between_nth)
  moreover have "last cs = cs ! (length cs - 1)"
    using n by (simp add: cs last_conv_nth)
  ultimately show "assemble (present cs) =
          Inr \<lparr>intro_audio = snd (cs ! 0) @ silent 300,
               hosts_discussion = spec_bucket (map (\<lambda>k. snd (cs ! k)) [1..<length cs - 1]),
               outro_audio = snd (cs ! (length cs - 1)) @ silent 300\<rparr>"
    using n by (simp add: assemble_present spec_intro_def spec_outro_def spec_bucket_def
        silent_def cs)
next
  assume "length cs = 1"
  then obtain c where cs: "cs = [c]" by (cases cs) auto
  show "assemble_bytes export (present cs) =
          Inr (Some (export (snd (cs ! 0) @ silent 300)), None, None)"
    by (simp add: assemble_bytes_def assemble_present bucket_bytes_def spec_intro_def
        spec_outro_def spec_discussion_def spec_bucket_def silent_def cs)
next
  assume "length cs = 0"
  then show "assemble_bytes export (present cs) = Inr (None, None, None)"
    by (simp add: assemble_bytes_def assemble_present bucket_bytes_def spec_intro_def
        spec_outro_def spec_discussion_def spec_bucket_def)
qed

theorem assemble_partitions_by_position_witness:
  "assemble (present [(''Line 1'', [1, 2]), (''Line 2'', [3]), (''Line 3'', [4]), (''Line 4'', [5])]) =
     Inr \<lparr>intro_audio = [1, 2] @ silent 300,
          hosts_discussion = [3] @ silent 300 @ [4] @ silent 300,
          outro_audio = [5] @ silent 300\<rparr>
   \<and> assemble_bytes (map nat) (present [(''Line 1'', [7])]) =
       Inr (Some (map nat ([7] @ silent 300)), None, None)
   \<and> assemble_bytes (map nat) (present []) = Inr (None, None, None)"
  using assemble_partitions_by_position
          [of "[(''Line 1'', [1, 2]), (''Line 2'', [3]), (''Line 3'', [4]), (''Line 4'', [5])]" "map nat"]
        assemble_partitions_by_position [of "[(''Line 1'', [7])]" "map nat"]
        assemble_partitions_by_position [of "[]" "map nat"]
  by (simp add: spec_bucket_def silent_def spec_intro_def spec_discussion_def spec_outro_def)

text \<open>
  C7. For every list of clips with audio the assembly succeeds, and every clip folded
  into a bucket is followed by 300 ms of silence, the last clip of the bucket included;
  nothing is trimmed afterwards: each bucket is the concatenation of clip plus silence
  over its clips in order, its duration is the sum of the clip durations plus 300 ms
  for each clip, every non-empty bucket ends with the 300 ms of silence, and the payload
  handed to the database is the export of the whole bucket.
\<close>

theorem silence_after_every_clip:
  "\<exists>b. assemble (present cs) = Inr b
    \<and> intro_audio b = concat (map (\<lambda>c. snd c @ silent 300) (spec_intro cs))
    \<and> hosts_discussion b = concat (map (\<lambda>c. snd c @ silent 300) (spec_discussion cs))
    \<and> outro_audio b = concat (map (\<lambda>c. snd c @ silent 300) (spec_outro cs))
    \<and> length (intro_audio b) = (\<Sum>c\<leftarrow>spec_intro cs. length (snd c) + 300)
    \<and> length (hosts_discussion b) = (\<Sum>c\<leftarrow>spec_discussion cs. length (snd c) + 300)
    \<and> length (outro_audio b) = (\<Sum>c\<leftarrow>spec_outro cs. length (snd c) + 300)
    \<and> (\<forall>x \<in> {intro_audio b, hosts_discussion b, outro_audio b}.
          x \<noteq> [] \<longrightarrow>
            drop (length x - 300) x = silent 300 \<and> bucket_bytes export x = Some (export x))
    \<and> assemble_bytes export (present cs) =
        Inr (bucket_bytes export (concat (map (\<lambda>c. snd c @ silent 300) (spec_intro cs))),
             bucket_bytes export (concat (map (\<lambda>c. snd c @ silent 300) (spec_discussion cs))),
             bucket_bytes export (concat (map (\<lambda>c. snd c @ silent 300) (spec_outro cs))))"
proof -
  define b where "b = \<lparr>intro_audio = spec_bucket (map snd (spec_intro cs)),
          hosts_discussion = spec_bucket (map snd (spec_discussion cs)),
          outro_audio = spec_bucket (map snd (spec_outro cs))\<rparr>"
  have run: "assemble (present cs) = Inr b"
    unfolding b_def by (rule assemble_present)
  have unfold: "spec_bucket (map snd xs) = concat (map (\<lambda>c. snd c @ silent 300) xs)"
    for xs :: "(string \<times> AudioSegment) list"
    by (simp add: spec_bucket_def silent_def comp_def)
  have len: "length (spec_bucket (map snd xs)) = (\<Sum>c\<leftarrow>xs. length (snd c) + 300)"
    for xs :: "(string \<times> AudioSegment) list"
    by (simp add: length_spec_bucket comp_def)
  have tail: "spec_bucket xs \<noteq> [] \<longrightarrow>
      drop (length (spec_bucket xs) - 300) (spec_bucket xs) = silent 300
      \<and> bucket_bytes export (spec_bucket xs) = Some (export (spec_bucket xs))" for xs
    using spec_bucket_ends_silent [of xs] by (simp add: silent_def bucket_bytes_def)
  have parts: "intro_audio b = concat (map (\<lambda>c. snd c @ silent 300) (spec_intro cs))"
    "hosts_discussion b = concat (map (\<lambda>c. snd c @ silent 300) (spec_discussion cs))"
    "outro_audio b = concat (map (\<lambda>c. snd c @ silent 300) (spec_outro cs))"
    unfolding b_def by (simp_all add: unfold)
  have lens: "length (intro_audio b) = (\<Sum>c\<leftarrow>spec_intro cs. length (snd c) + 300)"
    "length (hosts_discussion b) = (\<Sum>c\<leftarrow>spec_discussion cs. length (snd c) + 300)"
    "length (outro_audio b) = (\<Sum>c\<leftarrow>spec_outro cs. length (snd c) + 300)"
    unfolding b_def by (simp_all add: len)
  have ends: "\<forall>x \<in> {intro_audio b, hosts_discussion b, outro_audio b}.
          x \<noteq> [] \<longrightarrow>
            drop (length x - 300) x = silent 300 \<and> bucket_bytes export x = Some (export x)"
    unfolding b_def using tail by simp
  have bytes: "assemble_bytes export (present cs) =
        Inr (bucket_bytes export (concat (map (\<lambda>c. snd c @ silent 300) (spec_intro cs))),
             bucket_bytes export (concat (map (\<lambda>c. snd c @ silent 300) (spec_discussion cs))),
             bucket_bytes export (concat (map (\<lambda>c. snd c @ silent 300) (spec_outro cs))))"
    by (simp add: assemble_bytes_def run parts)
  from run parts lens ends bytes show ?thesis by blast
qed

theorem silence_after_every_clip_witness:
  "assemble (present [(''Line 1'', [1, 2]), (''Line 2'', [3]), (''Line 3'', [4]), (''Line 4'', [5])]) =
     Inr \<lparr>intro_audio = [1, 2] @ silent 300,
          hosts_discussion = [3] @ silent 300 @ [4] @ silent 300,
          outro_audio = [5] @ silent 300\<rparr>
   \<and> assemble_bytes (map nat)
        (present [(''Line 1'', [1, 2]), (''Line 2'', [3]), (''Line 3'', [4]), (''Line 4'', [5])]) =
      Inr (Some (map nat ([1, 2] @ silent 300)),
           Some (map nat ([3] @ silent 300 @ [4] @ silent 300)),
           Some (map nat ([5] @ silent 300)))
   \<and> length ([3] @ silent 300 @ [4] @ silent 300) = 602
   \<and> drop 302 ([3] @ silent 300 @ [4] @ silent 300) = silent 300"
proof -
  let ?cs = "[(''Line 1'', [1, 2]), (''Line 2'', [3]), (''Line 3'', [4]), (''Line 4'', [5])]"
  have parts: "spec_intro ?cs = [(''Line 1'', [1, 2])]"
    "spec_discussion ?cs = [(''Line 2'', [3]), (''Line 3'', [4])]"
    "spec_outro ?cs = [(''Line 4'', [5])]"
    by (simp_all add: spec_intro_def spec_discussion_def spec_outro_def)
  from silence_after_every_clip [of ?cs "map nat"] obtain b where
    run: "assemble (present ?cs) = Inr b"
    and i: "intro_audio b = concat (map (\<lambda>c. snd c @ silent 300) (spec_intro ?cs))"
    and h: "hosts_discussion b = concat (map (\<lambda>c. snd c @ silent 300) (spec_discussion ?cs))"
    and o: "outro_audio b = concat (map (\<lambda>c. snd c @ silent 300) (spec_outro ?cs))"
    and bytes: "assemble_bytes (map nat) (present ?cs) =
        Inr (bucket_bytes (map nat) (concat (map (\<lambda>c. snd c @ silent 300) (spec_intro ?cs))),
             bucket_bytes (map nat) (concat (map (\<lambda>c. snd c @ silent 300) (spec_discussion ?cs))),
             bucket_bytes (map nat) (concat (map (\<lambda>c. snd c @ silent 300) (spec_outro ?cs))))"
    by blast
  have b: "b = \<lparr>intro_audio = [1, 2] @ silent 300,
          hosts_discussion = [3] @ silent 300 @ [4] @ silent 300,
          outro_audio = [5] @ silent 300\<rparr>"
    using i h o unfolding parts by simp
  have "assemble (present ?cs) = Inr \<lparr>intro_audio = [1, 2] @ silent 300,
          hosts_discussion = [3] @ silent 300 @ [4] @ silent 300,
          outro_audio = [5] @ silent 300\<rparr>"
    using run unfolding b .
  moreover have "assemble_bytes (map nat) (present ?cs) =
      Inr (Some (map nat ([1, 2] @ silent 300)),
           Some (map nat ([3] @ silent 300 @ [4] @ silent 300)),
           Some (map nat ([5] @ silent 300)))"
    using bytes unfolding parts by (simp add: bucket_bytes_def silent_def)
  moreover have "length ([3] @ silent 300 @ [4] @ silent 300) = 602"
    "drop 302 ([3] @ silent 300 @ [4] @ silent 300) = silent 300"
    by (simp_all add: silent_def)
  ultimately show ?thesis by blast
qed

section \<open>Voice configuration: proofs\<close>

lemma lookup_update_same: "lookup (AList.update k v al) k = Inr v"
  by (simp add: lookup_def update_conv')

lemma first_voice_nonempty: "voices \<noteq> [] \<Longrightarrow> first_voice voices = Inr (fst (voices ! 0))"
  by (cases voices) (simp_all add: first_voice_def)

text \<open>
  C8. For a speaker the configuration step meets for the first time, with at least one
  available voice: the step does not fail and assigns a voice. If the speaker has a
  default mapping and the name of some available voice contains the preferred name,
  the first such voice is assigned; if no available voice does, or the speaker has no
  default mapping, the first available voice is assigned. With a single available
  voice and no default mapping the assignment is that voice.
\<close>

theorem first_encounter_voice:
  assumes voices: "available_voices st \<noteq> []"
    and fresh: "podcaster \<notin> fst ` set (podcasters (config st))"
  shows "\<exists>v. init_podcaster podcaster st =
              (fst (init_podcaster podcaster st), None)
    \<and> lookup (podcasters (config (fst (init_podcaster podcaster st)))) podcaster = Inr v
    \<and> (case map_of default_voices podcaster of
          Some (default_id, preferred) \<Rightarrow>
            (if \<exists>k \<in> set (map fst (available_voices st)). contains k preferred
             then \<exists>i < length (available_voices st).
                    v = fst (available_voices st ! i) \<and> contains v preferred
                    \<and> (\<forall>j < i. \<not> contains (fst (available_voices st ! j)) preferred)
             else v = fst (available_voices st ! 0))
        | None \<Rightarrow> v = fst (available_voices st ! 0))
    \<and> (length (available_voices st) = 1 \<and> map_of default_voices podcaster = None \<longrightarrow>
          v = fst (available_voices st ! 0))"
proof -
  let ?vs = "available_voices st"
  let ?keys = "map fst ?vs"
  have fb: "first_voice ?vs = Inr (fst (?vs ! 0))"
    using voices by (rule first_voice_nonempty)
  have "\<exists>v. initial_voice ?vs podcaster = Inr v"
    by (simp add: initial_voice_def fb split: option.splits prod.splits)
  then obtain v where v: "initial_voice ?vs podcaster = Inr v" ..
  have run: "init_podcaster podcaster st = (fst (init_podcaster podcaster st), None)"
    "lookup (podcasters (config (fst (init_podcaster podcaster st)))) podcaster = Inr v"
    using fresh v by (simp_all add: init_podcaster_def Let_def lookup_update_same)
  have choice: "(case map_of default_voices podcaster of
          Some (default_id, preferred) \<Rightarrow>
            (if \<exists>k \<in> set ?keys. contains k preferred
             then \<exists>i < length ?vs.
                    v = fst (?vs ! i) \<and> contains v preferred
                    \<and> (\<forall>j < i. \<not> contains (fst (?vs ! j)) preferred)
             else v = fst (?vs ! 0))
        | None \<Rightarrow> v = fst (?vs ! 0))"
  proof (cases "map_of default_voices podcaster")
    case None
    with v fb show ?thesis by (simp add: initial_voice_def)
  next
    case (Some d)
    obtain default_id preferred where d: "d = (default_id, preferred)" by (cases d)
    show ?thesis
    proof (cases "find (\<lambda>k. contains k preferred) ?keys")
      case None
      then have "\<not> (\<exists>k \<in> set ?keys. contains k preferred)"
        by (simp add: find_None_iff)
      moreover have "v = fst (?vs ! 0)"
        using v fb Some d None by (simp add: initial_voice_def)
      ultimately show ?thesis using Some d by simp
    next
      case (Some m)
      then have m: "v = m"
        using v fb \<open>map_of default_voices podcaster = Some d\<close> d
        by (simp add: initial_voice_def)
      from Some obtain i where i: "i < length ?keys" "contains (?keys ! i) preferred"
        "m = ?keys ! i" "\<forall>j < i. \<not> contains (?keys ! j) preferred"
        by (auto simp: find_Some_iff)
      then have "\<exists>k \<in> set ?keys. contains k preferred"
        using nth_mem by blast
      moreover have "\<exists>i < length ?vs. v = fst (?vs ! i) \<and> contains v preferred
                    \<and> (\<forall>j < i. \<not> contains (fst (?vs ! j)) preferred)"
        using i m by (intro exI [of _ i]) auto
      ultimately show ?thesis
        using \<open>map_of default_voices podcaster = Some d\<close> d by simp
    qed
  qed
  have single: "length ?vs = 1 \<and> map_of default_voices podcaster = None \<longrightarrow> v = fst (?vs ! 0)"
    using v fb by (auto simp: initial_voice_def)
  show ?thesis
    using run choice single by blast
qed

lemma example_initial_voice: "initial_voice example_voices ''Presenter'' = Inr ''Eric - calm''"
  by code_simp

lemma example_init_podcaster: "lookup (podcasters (config (fst (init_podcaster ''Presenter'' example_session)))) ''Presenter'' = Inr ''Eric - calm''"
  by code_simp

theorem first_encounter_voice_witness:
  "available_voices example_session \<noteq> []
   \<and> ''Presenter'' \<notin> fst ` set (podcasters (config example_session))
   \<and> lookup (podcasters (config (fst (init_podcaster ''Presenter'' example_session))))
        ''Presenter'' = Inr ''Eric - calm''
   \<and> snd (init_podcaster ''Presenter'' example_session) = None
   \<and> lookup (podcasters (config (fst (init_podcaster ''Guest''
        (example_session\<lparr>available_voices := [(''Default Voice'', \<lparr>voice_id = ''21m00Tcm4TlvDq8ikWAM'', samples = []\<rparr>)]\<rparr>)))))
        ''Guest'' = Inr ''Default Voice''"
proof -
  have a: "available_voices example_session \<noteq> []"
    by (simp add: example_session_def example_voices_def)
  have b: "''Presenter'' \<notin> fst ` set (podcasters (config example_session))"
    by (simp add: example_session_def example_config_def)
  let ?s = "example_session\<lparr>available_voices := [(''Default Voice'', \<lparr>voice_id = ''21m00Tcm4TlvDq8ikWAM'', samples = []\<rparr>)]\<rparr>"
  have c: "available_voices ?s \<noteq> []" by simp
  have d: "''Guest'' \<notin> fst ` set (podcasters (config ?s))"
    by (simp add: example_session_def example_config_def)
  have n: "map_of default_voices ''Guest'' = None"
    by (simp add: default_voices_def)
  from first_encounter_voice [OF a b] obtain v where
    v: "lookup (podcasters (config (fst (init_podcaster ''Presenter'' example_session)))) ''Presenter'' = Inr v"
    and r: "init_podcaster ''Presenter'' example_session = (fst (init_podcaster ''Presenter'' example_session), None)"
    by blast
  have v': "v = ''Eric - calm''"
    using v example_init_podcaster by simp
  from first_encounter_voice [OF c d] n obtain u where
    u: "lookup (podcasters (config (fst (init_podcaster ''Guest'' ?s)))) ''Guest'' = Inr u"
    and u1: "u = fst (available_voices ?s ! 0)"
    by auto
  from r have "snd (init_podcaster ''Presenter'' example_session) = None"
    by (metis snd_conv)
  then show ?thesis using a b v v' u u1 by simp
qed

section \<open>Speaker normalisation: proofs\<close>

lemma synthesis_request_speaker:
  "synthesis_request st line = Inr (t, v, s) \<Longrightarrow> s = speaker line \<and> t = line_text line"
  by (auto simp: synthesis_request_def Let_def split: sum.splits)

lemma edit_dialog_marker:
  "startswith (line_text line) ''Intro:'' \<or> startswith (line_text line) ''Outro:'' \<Longrightarrow>
   edit_dialog sw tw line = (''Presenter'', line\<lparr>speaker := ''Presenter'', line_text := tw\<rparr>)"
  by (simp add: edit_dialog_def Let_def)

lemma step_3_nth:
  "i < length (script st) \<Longrightarrow>
   script (step_3 widgets st) ! i =
     snd (edit_dialog (fst (widgets i)) (snd (widgets i)) (script st ! i))"
  by (simp add: step_3_def nth_enumerate_eq)

text \<open>
  Counterexample to C3 as stated: a line whose text starts with the intro marker and
  whose stored speaker is another name. "Generate All Audio" reads the stored speaker
  field and asks for the voice of that speaker.
\<close>

theorem generate_all_reads_stored_speaker:
  "(startswith (line_text marked_line) ''Intro:'' \<or> startswith (line_text marked_line) ''Outro:'')
   \<and> marked_line \<in> set (script configured_session)
   \<and> synthesis_request configured_session marked_line = Inr (''Intro: Welcome'', ''v1'', ''Host 1'')
   \<and> ''Host 1'' \<noteq> ''Presenter''"
  by (simp add: synthesis_request_def voice_id_for_def lookup_def configured_session_def
      marked_line_def example_session_def example_config_def example_voices_def
      startswith_def)

text \<open>
  C3, amended. For every script line whose text starts with "Intro:" or "Outro:" when
  the edit step renders it, the edit step shows the speaker "Presenter" and stores
  "Presenter" in the speaker field, whatever the field held and whatever the widgets
  return; "Generate All Audio" selects the voice by the stored speaker field, so for the
  line as the edit step stored it the speaker of the synthesis request is "Presenter".
\<close>

theorem edit_step_forces_presenter:
  assumes i: "i < length (script st)"
    and marker: "startswith (line_text (script st ! i)) ''Intro:''
                 \<or> startswith (line_text (script st ! i)) ''Outro:''"
  shows "fst (edit_dialog (fst (widgets i)) (snd (widgets i)) (script st ! i)) = ''Presenter''
    \<and> speaker (script (step_3 widgets st) ! i) = ''Presenter''
    \<and> (\<forall>st' t v s. synthesis_request st' (script (step_3 widgets st) ! i) = Inr (t, v, s) \<longrightarrow>
          s = ''Presenter'')"
proof -
  have e: "edit_dialog (fst (widgets i)) (snd (widgets i)) (script st ! i) =
      (''Presenter'', (script st ! i)\<lparr>speaker := ''Presenter'', line_text := snd (widgets i)\<rparr>)"
    using marker by (rule edit_dialog_marker)
  then have s: "speaker (script (step_3 widgets st) ! i) = ''Presenter''"
    using i by (simp add: step_3_nth)
  have "s' = ''Presenter''"
    if "synthesis_request st' (script (step_3 widgets st) ! i) = Inr (t, v, s')" for st' t v s'
    using synthesis_request_speaker [OF that] s by simp
  with e s show ?thesis by simp
qed

lemma marked_script_nth: "script configured_session ! 0 = marked_line"
    by (simp add: configured_session_def example_session_def)
lemma marked_script_length: "0 < length (script configured_session)"
    by (simp add: configured_session_def example_session_def)
lemma marked_script_marker: "startswith (line_text (script configured_session ! 0)) ''Intro:''"
    unfolding marked_script_nth by (simp add: marked_line_def startswith_def)
lemma marked_untouched: "untouched configured_session 0 = (''Host 1'', ''Intro: Welcome'')"
    unfolding untouched_def marked_script_nth by (simp add: marked_line_def)
lemma marked_step_3: "script (step_3 (untouched configured_session) configured_session) ! 0 =
      marked_line\<lparr>speaker := ''Presenter''\<rparr>"
    unfolding step_3_nth [OF marked_script_length] marked_untouched marked_script_nth
    by (simp add: edit_dialog_def marked_line_def startswith_def)

lemma marked_request: "synthesis_request configured_session
        (script (step_3 (untouched configured_session) configured_session) ! 0) =
      Inr (''Intro: Welcome'', ''v2'', ''Presenter'')"
    unfolding marked_step_3
    by (simp add: synthesis_request_def voice_id_for_def lookup_def configured_session_def
        marked_line_def example_session_def example_config_def example_voices_def)

theorem edit_step_forces_presenter_witness:
  "0 < length (script configured_session)
   \<and> startswith (line_text (script configured_session ! 0)) ''Intro:''
   \<and> fst (edit_dialog ''Host 1'' ''Intro: Welcome'' (script configured_session ! 0)) = ''Presenter''
   \<and> speaker (script (step_3 (untouched configured_session) configured_session) ! 0) = ''Presenter''
   \<and> synthesis_request configured_session
        (script (step_3 (untouched configured_session) configured_session) ! 0) =
      Inr (''Intro: Welcome'', ''v2'', ''Presenter'')"
proof -
  note t = edit_step_forces_presenter [OF marked_script_length disjI1 [OF marked_script_marker], of "untouched configured_session"]
  have t1: "fst (edit_dialog ''Host 1'' ''Intro: Welcome'' (script configured_session ! 0)) =
      ''Presenter''"
    using conjunct1 [OF t] unfolding marked_untouched by simp
  have t2: "speaker (script (step_3 (untouched configured_session) configured_session) ! 0) =
      ''Presenter''"
    using conjunct1 [OF conjunct2 [OF t]] .
  show ?thesis
    using marked_script_length marked_script_marker marked_request t1 t2 by blast
qed

section \<open>Generating all audio: proofs\<close>

lemma voice_id_for_segments [simp]:
  "voice_id_for (st\<lparr>audio_segments := segs\<rparr>) = voice_id_for st"
  by (rule ext) (simp add: voice_id_for_def split: sum.splits)

lemma generate_audio_segments [simp]:
  "generate_audio syn (st\<lparr>audio_segments := segs\<rparr>) = generate_audio syn st"
  by (intro ext) (simp add: generate_audio_def)

lemma synthesis_request_segments [simp]:
  "synthesis_request (st\<lparr>audio_segments := segs\<rparr>) = synthesis_request st"
  by (rule ext) (simp add: synthesis_request_def)

lemma line_audio_segments [simp]:
  "line_audio syn (st\<lparr>audio_segments := segs\<rparr>) line = line_audio syn st line"
  by (simp add: line_audio_def split: sum.splits prod.splits)

text \<open>The labelled clips of the audios \<open>as\<close>, for the lines from position \<open>i\<close> on.\<close>

lemma generate_loop_result:
  "generate_loop syn i lines st = (st', r) \<Longrightarrow>
   \<exists>audios. length audios \<le> length lines
     \<and> st' = st\<lparr>audio_segments := audio_segments st @
                   map (\<lambda>(j, a). (line_label j, Some a)) (enumerate i audios)\<rparr>
     \<and> (\<forall>j < length audios. line_audio syn st (lines ! j) = Inr (audios ! j))
     \<and> (case r of
           None \<Rightarrow> length audios = length lines
         | Some e \<Rightarrow> length audios < length lines
                      \<and> line_audio syn st (lines ! length audios) = Inl e)"
proof (induction lines arbitrary: i st)
  case Nil
  then show ?case by (intro exI [of _ "[]"]) auto
next
  case (Cons line rest)
  show ?case
  proof (cases "line_audio syn st line")
    case (Inl e)
    with Cons.prems have "st' = st" "r = Some e" by simp_all
    with Inl show ?thesis by (intro exI [of _ "[]"]) simp
  next
    case (Inr audio)
    let ?st1 = "st\<lparr>audio_segments := audio_segments st @ [(line_label i, Some audio)]\<rparr>"
    from Cons.prems Inr have "generate_loop syn (i + 1) rest ?st1 = (st', r)" by simp
    from Cons.IH [OF this] obtain audios where
      len: "length audios \<le> length rest"
      and st': "st' = ?st1\<lparr>audio_segments := audio_segments ?st1 @
                   map (\<lambda>(j, a). (line_label j, Some a)) (enumerate (i + 1) audios)\<rparr>"
      and ok: "\<forall>j < length audios. line_audio syn ?st1 (rest ! j) = Inr (audios ! j)"
      and fin: "(case r of
           None \<Rightarrow> length audios = length rest
         | Some e \<Rightarrow> length audios < length rest
                      \<and> line_audio syn ?st1 (rest ! length audios) = Inl e)"
      by blast
    have "\<forall>j < length (audio # audios). line_audio syn st ((line # rest) ! j) = Inr ((audio # audios) ! j)"
      using ok Inr by (auto simp: nth_Cons split: nat.splits)
    moreover have "st' = st\<lparr>audio_segments := audio_segments st @
                   map (\<lambda>(j, a). (line_label j, Some a)) (enumerate i (audio # audios))\<rparr>"
      using st' by simp
    moreover have "(case r of
           None \<Rightarrow> length (audio # audios) = length (line # rest)
         | Some e \<Rightarrow> length (audio # audios) < length (line # rest)
                      \<and> line_audio syn st ((line # rest) ! length (audio # audios)) = Inl e)"
      using fin by (cases r) simp_all
    moreover have "length (audio # audios) \<le> length (line # rest)" using len by simp
    ultimately show ?thesis by blast
  qed
qed

text \<open>
  Counterexample to C1 as stated: the synthesis of the second line fails; the call
  has emptied the cache and stored the clip of the first line, so the cache after the
  failed call differs from the cache before it.
\<close>

theorem generate_all_keeps_partial_cache:
  "snd (generate_all example_synth cached_session) = Some SynthesisError
   \<and> audio_segments cached_session = [(''Line 1'', Some [5]), (''Line 2'', Some [6])]
   \<and> audio_segments (fst (generate_all example_synth cached_session)) = [(''Line 1'', Some [7])]
   \<and> audio_segments (fst (generate_all example_synth cached_session)) \<noteq>
       audio_segments cached_session"
  by code_simp

text \<open>
  C1, amended. If "Generate All Audio" fails on some line, the exception of that line
  escapes the call; the prior cache has been discarded, and the cache after the failed
  call holds exactly the clips generated by this call for the lines before the failing
  one, in script order; the rest of the session (script, configuration) is unchanged.
\<close>

theorem generate_all_failure:
  assumes "generate_all syn st = (st', Some e)"
  shows "\<exists>audios. length audios < length (script st)
    \<and> line_audio syn st (script st ! length audios) = Inl e
    \<and> (\<forall>j < length audios. line_audio syn st (script st ! j) = Inr (audios ! j))
    \<and> st' = st\<lparr>audio_segments :=
                  map (\<lambda>(j, a). (line_label j, Some a)) (enumerate 0 audios)\<rparr>"
proof -
  from assms have "generate_loop syn 0 (script st) (st\<lparr>audio_segments := []\<rparr>) = (st', Some e)"
    by (simp add: generate_all_def)
  from generate_loop_result [OF this] obtain audios where
    "length audios \<le> length (script st)"
    "st' = st\<lparr>audio_segments := []\<rparr>\<lparr>audio_segments :=
        audio_segments (st\<lparr>audio_segments := []\<rparr>) @
        map (\<lambda>(j, a). (line_label j, Some a)) (enumerate 0 audios)\<rparr>"
    "\<forall>j < length audios. line_audio syn (st\<lparr>audio_segments := []\<rparr>) (script st ! j) = Inr (audios ! j)"
    "length audios < length (script st)
       \<and> line_audio syn (st\<lparr>audio_segments := []\<rparr>) (script st ! length audios) = Inl e"
    by auto
  then show ?thesis
    by (intro exI [of _ audios]) simp
qed

lemma cached_generate_all:
  "generate_all example_synth cached_session =
     (cached_session\<lparr>audio_segments := [(''Line 1'', Some [7])]\<rparr>, Some SynthesisError)"
  by code_simp

theorem generate_all_failure_witness:
  "generate_all example_synth cached_session =
     (cached_session\<lparr>audio_segments := [(''Line 1'', Some [7])]\<rparr>, Some SynthesisError)
   \<and> (\<exists>audios. length audios < length (script cached_session)
        \<and> line_audio example_synth cached_session (script cached_session ! length audios) =
            Inl SynthesisError
        \<and> cached_session\<lparr>audio_segments := [(''Line 1'', Some [7])]\<rparr> =
            cached_session\<lparr>audio_segments :=
              map (\<lambda>(j, a). (line_label j, Some a)) (enumerate 0 audios)\<rparr>)"
  using generate_all_failure [OF cached_generate_all] cached_generate_all by blast

section \<open>Labels and regeneration: proofs\<close>

lemma isdigit_digit_char: "d < 10 \<Longrightarrow> isdigit (digit_char d)"
  by (simp add: isdigit_def digit_char_def)

lemma of_char_digit_char: "d < 10 \<Longrightarrow> of_char (digit_char d) = 48 + d"
  by (simp add: digit_char_def)

lemma str_nat_digits: "\<forall>c \<in> set (str_nat n). isdigit c"
proof (induction n rule: str_nat.induct)
  case (1 n)
  show ?case
  proof (cases "n < 10")
    case True
    then show ?thesis by (subst str_nat.simps) (simp add: isdigit_digit_char)
  next
    case False
    with "1" show ?thesis by (subst str_nat.simps) (simp add: isdigit_digit_char)
  qed
qed

lemma str_nat_nonempty: "str_nat n \<noteq> []"
  by (subst str_nat.simps) simp

lemma digits_val_snoc:
  "isdigit c \<Longrightarrow> digits_val (s @ [c]) = 10 * digits_val s + (of_char c - 48)"
  by (simp add: digits_val_def)

lemma digits_val_str_nat: "digits_val (str_nat n) = n"
proof (induction n rule: str_nat.induct)
  case (1 n)
  show ?case
  proof (cases "n < 10")
    case True
    then show ?thesis
      by (subst str_nat.simps) (simp add: digits_val_def isdigit_digit_char of_char_digit_char)
  next
    case False
    with "1" show ?thesis
      by (subst str_nat.simps)
         (simp add: digits_val_snoc isdigit_digit_char of_char_digit_char)
  qed
qed

lemma isdigit_not_underscore: "isdigit c \<Longrightarrow> c \<noteq> CHR ''_''"
  by (auto simp: isdigit_def)

lemma isdigit_not_sign: "isdigit c \<Longrightarrow> c \<noteq> CHR ''-'' \<and> c \<noteq> CHR ''+''"
  by (auto simp: isdigit_def)

lemma isdigit_not_space: "isdigit c \<Longrightarrow> \<not> isspace c"
  by (auto simp: isdigit_def isspace_def Let_def)

lemma valid_digits_all: "s \<noteq> [] \<Longrightarrow> \<forall>c \<in> set s. isdigit c \<Longrightarrow> valid_digits s"
  by (induction s rule: valid_digits.induct) (auto simp: isdigit_not_underscore)

lemma py_int_str_nat: "py_int (str_nat n) = Inr (int n)"
proof -
  obtain c cs where s: "str_nat n = c # cs"
    using str_nat_nonempty [of n] by (cases "str_nat n") auto
  have "isdigit c" using str_nat_digits [of n] s by simp
  then have "c \<noteq> CHR ''-''" "c \<noteq> CHR ''+''" using isdigit_not_sign by blast+
  moreover have "valid_digits (c # cs)"
    using valid_digits_all [of "str_nat n"] str_nat_digits [of n] s by simp
  moreover have "digits_val (c # cs) = n" using digits_val_str_nat [of n] s by simp
  ultimately show ?thesis by (simp add: py_int_def s)
qed

lemma split_from_token:
  "\<forall>c \<in> set t. \<not> isspace c \<Longrightarrow> split_from cur t = (if cur @ t = [] then [] else [cur @ t])"
  by (induction t arbitrary: cur) auto

lemma split_line_label: "split (line_label i) = [''Line'', str_nat (i + 1)]"
proof -
  have t: "\<forall>c \<in> set (str_nat (i + 1)). \<not> isspace c"
    using str_nat_digits [of "i + 1"] isdigit_not_space by blast
  have "split_from [] (str_nat (i + 1)) = [str_nat (i + 1)]"
    using split_from_token [OF t, of "[]"] str_nat_nonempty [of "i + 1"] by simp
  then show ?thesis
    by (simp add: split_def line_label_def isspace_def)
qed

lemma label_line_index_label: "label_line_index (line_label i) = Inr (int i)"
  by (simp add: label_line_index_def split_line_label py_int_str_nat)

lemma split_label: "split (''Line '' @ str_nat n) = [''Line'', str_nat n]"
proof -
  have t: "\<forall>c \<in> set (str_nat n). \<not> isspace c"
    using str_nat_digits [of n] isdigit_not_space by blast
  have "split_from [] (str_nat n) = [str_nat n]"
    using split_from_token [OF t, of "[]"] str_nat_nonempty [of n] by simp
  then show ?thesis
    by (simp add: split_def isspace_def)
qed

lemma label_line_index_number: "label_line_index (''Line '' @ str_nat n) = Inr (int n - 1)"
  unfolding label_line_index_def split_label by (simp add: py_int_str_nat)

lemma clip_target_labelled:
  "clip_target st (line_label i, audio) = Inr k \<Longrightarrow> k = i \<and> i < length (script st)"
  by (auto simp: clip_target_def label_line_index_label list_index_def
      split: option.splits if_splits)

lemma regenerate_clip_cases:
  "regenerate_clip syn i k new_text st = (st', r) \<Longrightarrow>
   (\<exists>e. r = Some e \<and> st' = st)
   \<or> (\<exists>new_audio. r = None
        \<and> st' = st\<lparr>script := (script st)[k := (script st ! k)\<lparr>line_text := new_text\<rparr>],
                   audio_segments :=
                     (audio_segments st)[i := (fst (audio_segments st ! i), Some new_audio)]\<rparr>)"
  by (auto simp: regenerate_clip_def Let_def split: sum.splits)

lemma segments_loop_pressed:
  "segments_loop syn (Some i) new_text j cs st = (st', r) \<Longrightarrow> j \<le> i \<Longrightarrow> i < j + length cs \<Longrightarrow>
   (\<exists>e. r = Some e \<and> st' = st)
   \<or> (\<exists>k. clip_target st (cs ! (i - j)) = Inr k \<and> regenerate_clip syn i k new_text st = (st', r))"
proof (induction cs arbitrary: j)
  case Nil
  then show ?case by simp
next
  case (Cons c cs)
  show ?case
  proof (cases "clip_target st c")
    case (Inl e)
    with Cons.prems show ?thesis by auto
  next
    case (Inr k)
    show ?thesis
    proof (cases "i = j")
      case True
      with Cons.prems Inr show ?thesis by simp
    next
      case False
      with Cons.prems Inr have "segments_loop syn (Some i) new_text (j + 1) cs st = (st', r)"
        by simp
      from Cons.IH [OF this] Cons.prems False show ?thesis
        by (auto simp: nth_Cons split: nat.splits) (metis Suc_diff_Suc diff_Suc_1 le_neq_implies_less)+
    qed
  qed
qed

lemma generate_loop_labelled:
  "generate_loop syn 0 lines (st\<lparr>audio_segments := []\<rparr>) = (st', r) \<Longrightarrow>
   labelled (audio_segments st')"
  by (drule generate_loop_result) (auto simp: labelled_def nth_enumerate_eq)

lemma generate_all_labelled:
  "generate_all syn st = (st', r) \<Longrightarrow> labelled (audio_segments st')"
  unfolding generate_all_def by (rule generate_loop_labelled)

text \<open>
  C4. Pressing "Regenerate" on the clip at cache position \<open>i\<close> of a cache whose labels
  are those of the positions: a run that raises leaves the session as it was; a run
  that succeeds replaces the audio of the clip at position \<open>i\<close>, keeps its label, and
  stores the new text in script line \<open>i\<close>; every other clip, every other script line,
  and the speaker and the uid of line \<open>i\<close> are the same before and after.
\<close>

theorem regenerate_frame:
  assumes run: "regenerate syn i new_text st = (st', r)"
    and labels: "labelled (audio_segments st)"
    and i: "i < length (audio_segments st)"
  shows "(r \<noteq> None \<longrightarrow> st' = st)
    \<and> (r = None \<longrightarrow>
         i < length (script st)
         \<and> (\<exists>new_audio.
               st' = st\<lparr>script := (script st)[i := (script st ! i)\<lparr>line_text := new_text\<rparr>],
                         audio_segments :=
                           (audio_segments st)[i := (fst (audio_segments st ! i), Some new_audio)]\<rparr>)
         \<and> fst (audio_segments st' ! i) = fst (audio_segments st ! i)
         \<and> length (audio_segments st') = length (audio_segments st)
         \<and> (\<forall>j. j \<noteq> i \<longrightarrow> audio_segments st' ! j = audio_segments st ! j)
         \<and> length (script st') = length (script st)
         \<and> (\<forall>j. j \<noteq> i \<longrightarrow> script st' ! j = script st ! j)
         \<and> line_text (script st' ! i) = new_text
         \<and> speaker (script st' ! i) = speaker (script st ! i)
         \<and> uid (script st' ! i) = uid (script st ! i)
         \<and> labelled (audio_segments st'))"
proof -
  from run have loop: "segments_loop syn (Some i) new_text 0 (audio_segments st) st = (st', r)"
    by (simp add: regenerate_def)
  from segments_loop_pressed [OF loop] i consider
    (failed) e where "r = Some e" "st' = st"
    | (pressed) k where "clip_target st (audio_segments st ! i) = Inr k"
        "regenerate_clip syn i k new_text st = (st', r)"
    by auto
  then show ?thesis
  proof cases
    case failed
    then show ?thesis by simp
  next
    case pressed
    have "fst (audio_segments st ! i) = line_label i"
      using labels i by (simp add: labelled_def)
    then have "audio_segments st ! i = (line_label i, snd (audio_segments st ! i))"
      by (metis prod.collapse)
    with pressed(1) clip_target_labelled [of st i "snd (audio_segments st ! i)" k]
    have k: "k = i" "i < length (script st)" by simp_all
    from regenerate_clip_cases [OF pressed(2)] consider
      (err) e where "r = Some e" "st' = st"
      | (ok) new_audio where "r = None"
          "st' = st\<lparr>script := (script st)[k := (script st ! k)\<lparr>line_text := new_text\<rparr>],
                   audio_segments :=
                     (audio_segments st)[i := (fst (audio_segments st ! i), Some new_audio)]\<rparr>"
      by blast
    then show ?thesis
    proof cases
      case err
      then show ?thesis by simp
    next
      case ok
      have st': "st' = st\<lparr>script := (script st)[i := (script st ! i)\<lparr>line_text := new_text\<rparr>],
                   audio_segments :=
                     (audio_segments st)[i := (fst (audio_segments st ! i), Some new_audio)]\<rparr>"
        using ok(2) k by simp
      have lab: "labelled (audio_segments st')"
        using labels i unfolding st' labelled_def by (auto simp: nth_list_update)
      show ?thesis
        using ok(1) k i lab st' by (auto simp: nth_list_update)
    qed
  qed
qed

lemma three_line_regenerate:
  "regenerate example_synth 1 ''Hello'' three_line_session =
     (three_line_session
        \<lparr>script := [\<lparr>uid = Some ''a'', speaker = ''Presenter'', line_text = ''Welcome''\<rparr>,
                    \<lparr>uid = Some ''b'', speaker = ''Host 1'', line_text = ''Hello''\<rparr>,
                    \<lparr>uid = Some ''c'', speaker = ''Presenter'', line_text = ''Bye''\<rparr>],
         audio_segments := [(''Line 1'', Some [7]), (''Line 2'', Some [5]), (''Line 3'', Some [3])]\<rparr>,
      None)"
  by code_simp

lemma three_line_labelled: "labelled (audio_segments three_line_session)"
proof -
  have "line_label 0 = ''Line 1''" "line_label (Suc 0) = ''Line 2''"
    "line_label (Suc (Suc 0)) = ''Line 3''"
    by code_simp+
  then show ?thesis
    by (simp add: labelled_def three_line_session_def less_Suc_eq all_conj_distrib)
qed

theorem regenerate_frame_witness:
  "labelled (audio_segments three_line_session)
   \<and> 1 < length (audio_segments three_line_session)
   \<and> snd (regenerate example_synth 1 ''Hello'' three_line_session) = None
   \<and> audio_segments (fst (regenerate example_synth 1 ''Hello'' three_line_session)) =
       [(''Line 1'', Some [7]), (''Line 2'', Some [5]), (''Line 3'', Some [3])]
   \<and> line_text (script (fst (regenerate example_synth 1 ''Hello'' three_line_session)) ! 1) = ''Hello''
   \<and> speaker (script (fst (regenerate example_synth 1 ''Hello'' three_line_session)) ! 1) =
       speaker (script three_line_session ! 1)
   \<and> script (fst (regenerate example_synth 1 ''Hello'' three_line_session)) ! 0 =
       script three_line_session ! 0
   \<and> script (fst (regenerate example_synth 1 ''Hello'' three_line_session)) ! 2 =
       script three_line_session ! 2"
proof -
  have len: "1 < length (audio_segments three_line_session)"
    by (simp add: three_line_session_def)
  let ?st' = "fst (regenerate example_synth 1 ''Hello'' three_line_session)"
  have run: "regenerate example_synth 1 ''Hello'' three_line_session = (?st', None)"
    unfolding three_line_regenerate by simp
  note t = regenerate_frame [OF run three_line_labelled len]
  from t have others: "\<forall>j. j \<noteq> 1 \<longrightarrow> script ?st' ! j = script three_line_session ! j"
    and same: "speaker (script ?st' ! 1) = speaker (script three_line_session ! 1)"
    by blast+
  from others have "script ?st' ! 0 = script three_line_session ! 0"
    "script ?st' ! 2 = script three_line_session ! 2"
    by simp_all
  with same have a: "speaker (script ?st' ! 1) = speaker (script three_line_session ! 1)"
    "script ?st' ! 0 = script three_line_session ! 0"
    "script ?st' ! 2 = script three_line_session ! 2"
    by simp_all
  have b: "snd (regenerate example_synth 1 ''Hello'' three_line_session) = None"
    "audio_segments ?st' = [(''Line 1'', Some [7]), (''Line 2'', Some [5]), (''Line 3'', Some [3])]"
    "line_text (script ?st' ! 1) = ''Hello''"
    unfolding three_line_regenerate by simp_all
  show ?thesis
    using a b three_line_labelled len by blast
qed

lemma regenerate_target_fails:
  assumes i: "i < length (audio_segments st)"
    and target: "clip_target st (audio_segments st ! i) = Inl e'"
  shows "\<exists>e. regenerate syn i new_text st = (st, Some e)"
proof -
  obtain st' r where run: "segments_loop syn (Some i) new_text 0 (audio_segments st) st = (st', r)"
    by (cases "segments_loop syn (Some i) new_text 0 (audio_segments st) st")
  from segments_loop_pressed [OF run] i target have "\<exists>e. r = Some e \<and> st' = st"
    by auto
  with run show ?thesis by (auto simp: regenerate_def)
qed

text \<open>
  C5. For a cached clip labelled "Line N", the script line of the edit and regenerate
  operation is found from the number of the label alone, as script index \<open>N - 1\<close>, and
  not from the cache position of the clip. When \<open>N\<close> exceeds the length of the script
  the lookup is out of range (\<^verbatim>\<open>IndexError\<close>), and pressing "Regenerate" on that clip
  raises and regenerates no line: the session is unchanged.
\<close>

theorem label_decides_target:
  assumes label: "fst c = ''Line '' @ str_nat N"
  shows "label_line_index (fst c) = Inr (int N - 1)
    \<and> (1 \<le> N \<and> N \<le> length (script st) \<and> snd c \<noteq> None \<longrightarrow> clip_target st c = Inr (N - 1))
    \<and> (length (script st) < N \<longrightarrow>
          (\<exists>e. clip_target st c = Inl e)
          \<and> (snd c \<noteq> None \<longrightarrow> clip_target st c = Inl IndexError)
          \<and> (\<forall>i syn new_text. i < length (audio_segments st) \<and> audio_segments st ! i = c \<longrightarrow>
                (\<exists>e. regenerate syn i new_text st = (st, Some e))))"
proof -
  have idx: "label_line_index (fst c) = Inr (int N - 1)"
    unfolding label by (rule label_line_index_number)
  have inside: "clip_target st c = Inr (N - 1)"
    if "1 \<le> N" "N \<le> length (script st)" "snd c \<noteq> None"
    using that by (auto simp: clip_target_def idx list_index_def nat_diff_distrib)
  have outside: "\<exists>e. clip_target st c = Inl e" "snd c \<noteq> None \<longrightarrow> clip_target st c = Inl IndexError"
    if "length (script st) < N"
    using that by (auto simp: clip_target_def idx list_index_def split: option.splits)
  have "\<exists>e. regenerate syn i new_text st = (st, Some e)"
    if short: "length (script st) < N" and pos: "i < length (audio_segments st)"
      and at: "audio_segments st ! i = c"
    for i syn new_text
  proof -
    from outside(1) [OF short] obtain e' where "clip_target st (audio_segments st ! i) = Inl e'"
      using at by auto
    with pos show ?thesis by (rule regenerate_target_fails)
  qed
  with idx inside outside show ?thesis by blast
qed

lemma deleted_regenerate:
  "regenerate example_synth 2 ''Goodbye'' (delete_dialog 1 three_line_session) =
     (delete_dialog 1 three_line_session, Some IndexError)"
  by code_simp

lemma deleted_target:
  "clip_target (delete_dialog 1 three_line_session) (''Line 2'', Some [2]) = Inr 1
   \<and> script (delete_dialog 1 three_line_session) ! 1 =
       \<lparr>uid = Some ''c'', speaker = ''Presenter'', line_text = ''Bye''\<rparr>"
  by code_simp

theorem label_decides_target_witness:
  "fst (''Line 3'', Some [3::int]) = ''Line '' @ str_nat 3
   \<and> length (script (delete_dialog 1 three_line_session)) < 3
   \<and> audio_segments (delete_dialog 1 three_line_session) ! 2 = (''Line 3'', Some [3])
   \<and> label_line_index ''Line 3'' = Inr 2
   \<and> clip_target (delete_dialog 1 three_line_session) (''Line 3'', Some [3]) = Inl IndexError
   \<and> regenerate example_synth 2 ''Goodbye'' (delete_dialog 1 three_line_session) =
       (delete_dialog 1 three_line_session, Some IndexError)"
proof -
  have l: "fst (''Line 3'', Some [3::int]) = ''Line '' @ str_nat 3" by code_simp
  have n: "length (script (delete_dialog 1 three_line_session)) < 3"
    by (simp add: delete_dialog_def three_line_session_def)
  have c: "audio_segments (delete_dialog 1 three_line_session) ! 2 = (''Line 3'', Some [3])"
    by (simp add: delete_dialog_def three_line_session_def)
  note t = label_decides_target [OF l, of "delete_dialog 1 three_line_session"]
  from t have "label_line_index (fst (''Line 3'', Some [3::int])) = Inr (int 3 - 1)" by blast
  then have a: "label_line_index ''Line 3'' = Inr 2" by simp
  from t n have "snd (''Line 3'', Some [3::int]) \<noteq> None \<longrightarrow>
      clip_target (delete_dialog 1 three_line_session) (''Line 3'', Some [3]) = Inl IndexError"
    by blast
  then have b: "clip_target (delete_dialog 1 three_line_session) (''Line 3'', Some [3]) =
      Inl IndexError" by simp
  show ?thesis using l n c a b deleted_regenerate by blast
qed

section \<open>Finalizing: proofs\<close>

lemma step_3_finalized [simp]: "podcast_finalized (step_3 widgets st) = podcast_finalized st"
  by (simp add: step_3_def)

lemma init_podcaster_finalized [simp]:
  "podcast_finalized (fst (init_podcaster podcaster st)) = podcast_finalized st"
  by (simp add: init_podcaster_def Let_def split: sum.splits)

lemma step_4_podcaster_finalized [simp]:
  "podcast_finalized (fst (step_4_podcaster selected sliders podcaster st)) = podcast_finalized st"
proof -
  obtain st1 r where i: "init_podcaster podcaster st = (st1, r)"
    by (cases "init_podcaster podcaster st")
  then have "podcast_finalized st1 = podcast_finalized st"
    using init_podcaster_finalized [of podcaster st] by simp
  then show ?thesis
    by (auto simp: step_4_podcaster_def i split: option.splits sum.splits)
qed

lemma generate_loop_finalized:
  "podcast_finalized (fst (generate_loop syn i lines st)) = podcast_finalized st"
  by (induction lines arbitrary: i st) (simp_all split: sum.splits)

lemma generate_all_finalized [simp]:
  "podcast_finalized (fst (generate_all syn st)) = podcast_finalized st"
  by (simp add: generate_all_def generate_loop_finalized)

lemma regenerate_clip_finalized:
  "podcast_finalized (fst (regenerate_clip syn i k new_text st)) = podcast_finalized st"
  by (simp add: regenerate_clip_def Let_def split: sum.splits)

lemma segments_loop_finalized:
  "podcast_finalized (fst (segments_loop syn pressed new_text i cs st)) = podcast_finalized st"
  by (induction cs arbitrary: i) (simp_all add: regenerate_clip_finalized split: sum.splits)

lemma regenerate_finalized [simp]:
  "podcast_finalized (fst (regenerate syn i new_text st)) = podcast_finalized st"
  by (simp add: regenerate_def segments_loop_finalized)

lemma save_progress_button_finalized [simp]:
  "podcast_finalized (fst (fst (save_progress_button ex enc r now name sd))) =
     podcast_finalized (fst sd)"
  by (simp add: save_progress_button_def split: sum.splits)

lemma load_progress_button_finalized [simp]:
  "podcast_finalized (fst (load_progress_button dec from_mp3 pid db st)) = podcast_finalized st"
  by (simp add: load_progress_button_def Let_def split: sum.splits option.splits)

lemma step_6_keeps_finalized:
  "podcast_finalized (fst sd) = Some True \<Longrightarrow>
   podcast_finalized (fst (fst (step_6 ex fault company podcast_title pressed sd))) = Some True
   \<and> snd (fst (step_6 ex fault company podcast_title pressed sd)) = snd sd"
  by (simp add: step_6_def Let_def)

lemma handle_keeps_finalized:
  "podcast_finalized (fst sd) = Some True \<Longrightarrow>
   podcast_finalized (fst (handle svc ev sd)) = Some True"
proof (cases sd)
  case (Pair st db)
  assume "podcast_finalized (fst sd) = Some True"
  with Pair have f: "podcast_finalized st = Some True" by simp
  show ?thesis
    unfolding Pair
    using f step_6_keeps_finalized [of "(st, db)"]
    by (cases ev) (simp_all add: add_dialog_below_def delete_dialog_def)
qed

lemma run_keeps_finalized:
  "podcast_finalized (fst sd) = Some True \<Longrightarrow>
   podcast_finalized (fst (run svc events sd)) = Some True"
  unfolding run_def
  by (induction events arbitrary: sd) (simp_all add: handle_keeps_finalized)

lemma save_progress_podcasts:
  "save_progress r now name scr cfg segs db = Inr db' \<Longrightarrow>
   podcasts db' = podcasts db \<and> podcast_segments db' = podcast_segments db"
  by (auto simp: save_progress_def Let_def split: sum.splits if_splits)

lemma save_progress_button_podcasts [simp]:
  "podcasts (snd (fst (save_progress_button ex enc r now name sd))) = podcasts (snd sd)"
  "podcast_segments (snd (fst (save_progress_button ex enc r now name sd))) =
     podcast_segments (snd sd)"
  by (auto simp: save_progress_button_def dest: save_progress_podcasts split: sum.splits)

lemma handle_finalized_podcasts:
  assumes "podcast_finalized (fst sd) = Some True"
  shows "podcasts (snd (handle svc ev sd)) = podcasts (snd sd)
    \<and> podcast_segments (snd (handle svc ev sd)) = podcast_segments (snd sd)"
proof (cases sd)
  case (Pair st db)
  with assms have f: "podcast_finalized st = Some True" by simp
  show ?thesis
    unfolding Pair
    using f step_6_keeps_finalized [of "(st, db)"]
    by (cases ev) (simp_all add: delete_progress_def)
qed

lemma run_finalized_podcasts:
  "podcast_finalized (fst sd) = Some True \<Longrightarrow>
   podcasts (snd (run svc events sd)) = podcasts (snd sd)
   \<and> podcast_segments (snd (run svc events sd)) = podcast_segments (snd sd)"
proof (induction events arbitrary: sd)
  case Nil
  then show ?case by (simp add: run_def)
next
  case (Cons ev events)
  have "podcast_finalized (fst (handle svc ev sd)) = Some True"
    using Cons.prems by (rule handle_keeps_finalized)
  from Cons.IH [OF this] handle_finalized_podcasts [OF Cons.prems, of svc ev]
  show ?case by (simp add: run_def)
qed

lemma step_6_button_finalize_iff:
  "step_6_button st company podcast_title = Some FinalizePodcast \<longleftrightarrow>
     audio_segments st \<noteq> [] \<and> strip company \<noteq> [] \<and> strip podcast_title \<noteq> []
     \<and> podcast_finalized st \<noteq> Some True"
  by (simp add: step_6_button_def)

lemma step_6_without_button:
  assumes "\<not> pressed \<or> step_6_button st company podcast_title \<noteq> Some FinalizePodcast"
  shows "snd (fst (step_6 ex fault company podcast_title pressed (st, db))) = db
    \<and> (podcast_finalized (fst (fst (step_6 ex fault company podcast_title pressed (st, db)))) =
          Some True \<longrightarrow> podcast_finalized st = Some True)"
proof (cases "audio_segments st = [] \<or> strip company = [] \<or> strip podcast_title = []")
  case True
  then show ?thesis by (auto simp: step_6_def)
next
  case False
  show ?thesis
  proof (cases "podcast_finalized st = Some True")
    case True
    with False show ?thesis by (simp add: step_6_def Let_def)
  next
    case nf: False
    with False have "step_6_button st company podcast_title = Some FinalizePodcast"
      by (simp add: step_6_button_def)
    with assms have "\<not> pressed" by simp
    with False nf show ?thesis by (simp add: step_6_def Let_def)
  qed
qed

lemma step_6_effect_needs_button:
  assumes "snd (fst (step_6 ex fault company podcast_title pressed (st, db))) \<noteq> db
     \<or> (podcast_finalized (fst (fst (step_6 ex fault company podcast_title pressed (st, db)))) = Some True
        \<and> podcast_finalized st \<noteq> Some True)"
  shows "pressed \<and> step_6_button st company podcast_title = Some FinalizePodcast"
  using assms step_6_without_button [of pressed st company podcast_title ex fault db] by blast

text \<open>
  C6. The forward transition of the finalize step is gated: the "Finalize Podcast"
  button is drawn exactly when the clip cache is non-empty, company and title are both
  non-blank, and the podcast is not finalized; a run of the step writes the database or
  sets the finalized flag only through that button. Finalizing is terminal for the
  session: once the flag is set the page draws "Proceed" in place of "Finalize", and
  after any sequence of events of the application the flag is still set, "Finalize" is
  never drawn again, and no further podcast is stored.
\<close>

theorem finalize_gated_and_terminal:
  "(step_6_button st company podcast_title = Some FinalizePodcast \<longleftrightarrow>
      audio_segments st \<noteq> [] \<and> strip company \<noteq> [] \<and> strip podcast_title \<noteq> []
      \<and> podcast_finalized st \<noteq> Some True)
   \<and> (snd (fst (step_6 ex fault company podcast_title pressed (st, db))) \<noteq> db
        \<or> (podcast_finalized (fst (fst (step_6 ex fault company podcast_title pressed (st, db)))) =
              Some True
            \<and> podcast_finalized st \<noteq> Some True)
       \<longrightarrow> pressed \<and> step_6_button st company podcast_title = Some FinalizePodcast)
   \<and> (podcast_finalized st = Some True \<longrightarrow>
         (audio_segments st \<noteq> [] \<and> strip company \<noteq> [] \<and> strip podcast_title \<noteq> [] \<longrightarrow>
            step_6_button st company podcast_title = Some ProceedToPlay)
         \<and> (\<forall>events c t.
               podcast_finalized (fst (run svc events (st, db))) = Some True
               \<and> step_6_button (fst (run svc events (st, db))) c t \<noteq> Some FinalizePodcast
               \<and> podcasts (snd (run svc events (st, db))) = podcasts db
               \<and> podcast_segments (snd (run svc events (st, db))) = podcast_segments db))"
proof (intro conjI impI allI)
  show "step_6_button st company podcast_title = Some FinalizePodcast \<longleftrightarrow>
      audio_segments st \<noteq> [] \<and> strip company \<noteq> [] \<and> strip podcast_title \<noteq> []
      \<and> podcast_finalized st \<noteq> Some True"
    by (rule step_6_button_finalize_iff)
next
  assume "snd (fst (step_6 ex fault company podcast_title pressed (st, db))) \<noteq> db
        \<or> (podcast_finalized (fst (fst (step_6 ex fault company podcast_title pressed (st, db)))) =
              Some True
            \<and> podcast_finalized st \<noteq> Some True)"
  from step_6_effect_needs_button [OF this]
  show "pressed" "step_6_button st company podcast_title = Some FinalizePodcast" by simp_all
next
  assume "podcast_finalized st = Some True"
    "audio_segments st \<noteq> [] \<and> strip company \<noteq> [] \<and> strip podcast_title \<noteq> []"
  then show "step_6_button st company podcast_title = Some ProceedToPlay"
    by (simp add: step_6_button_def)
next
  fix events c t
  assume f: "podcast_finalized st = Some True"
  then have f': "podcast_finalized (fst (st, db)) = Some True" by simp
  show "podcast_finalized (fst (run svc events (st, db))) = Some True"
    using f' by (rule run_keeps_finalized)
  then show "step_6_button (fst (run svc events (st, db))) c t \<noteq> Some FinalizePodcast"
    by (simp add: step_6_button_finalize_iff)
  show "podcasts (snd (run svc events (st, db))) = podcasts db"
    "podcast_segments (snd (run svc events (st, db))) = podcast_segments db"
    using run_finalized_podcasts [OF f', of svc events] by simp_all
qed

lemma ready_finalize:
  "podcast_finalized (fst (handle example_services (Finalize ''Acme'' ''Weekly'' True)
      (ready_session, empty_database))) = Some True
   \<and> podcasts (snd (handle example_services (Finalize ''Acme'' ''Weekly'' True)
      (ready_session, empty_database))) = [\<lparr>p_id = 1, p_title = ''Acme Weekly''\<rparr>]
   \<and> map segment_type (podcast_segments (snd (handle example_services
        (Finalize ''Acme'' ''Weekly'' True) (ready_session, empty_database)))) =
       [''intro'', ''hosts_discussion'', ''outro'']"
  by code_simp

lemma ready_buttons:
  "step_6_button ready_session ''Acme'' ''Weekly'' = Some FinalizePodcast
   \<and> step_6_button ready_session ''  '' ''Weekly'' = None
   \<and> step_6_button (ready_session\<lparr>audio_segments := []\<rparr>) ''Acme'' ''Weekly'' = None"
  by code_simp

theorem finalize_gated_and_terminal_witness:
  "step_6_button ready_session ''Acme'' ''Weekly'' = Some FinalizePodcast
   \<and> step_6_button ready_session ''  '' ''Weekly'' = None
   \<and> step_6_button (ready_session\<lparr>audio_segments := []\<rparr>) ''Acme'' ''Weekly'' = None
   \<and> podcast_finalized (fst (handle example_services (Finalize ''Acme'' ''Weekly'' True)
        (ready_session, empty_database))) = Some True
   \<and> step_6_button (fst (handle example_services (Finalize ''Acme'' ''Weekly'' True)
        (ready_session, empty_database))) ''Acme'' ''Weekly'' = Some ProceedToPlay
   \<and> podcast_finalized (fst (run example_services
        [Navigate 3, GenerateAll, Navigate 4, Finalize ''Acme'' ''Weekly'' True]
        (handle example_services (Finalize ''Acme'' ''Weekly'' True)
           (ready_session, empty_database)))) = Some True
   \<and> podcasts (snd (run example_services
        [Navigate 3, GenerateAll, Navigate 4, Finalize ''Acme'' ''Weekly'' True]
        (handle example_services (Finalize ''Acme'' ''Weekly'' True)
           (ready_session, empty_database)))) = [\<lparr>p_id = 1, p_title = ''Acme Weekly''\<rparr>]"
proof -
  let ?sd = "handle example_services (Finalize ''Acme'' ''Weekly'' True)
               (ready_session, empty_database)"
  let ?events = "[Navigate 3, GenerateAll, Navigate 4, Finalize ''Acme'' ''Weekly'' True]"
  have f: "podcast_finalized (fst ?sd) = Some True"
    and p: "podcasts (snd ?sd) = [\<lparr>p_id = 1, p_title = ''Acme Weekly''\<rparr>]"
    using ready_finalize by blast+
  have gates: "audio_segments (fst ?sd) \<noteq> [] \<and> strip ''Acme'' \<noteq> [] \<and> strip ''Weekly'' \<noteq> []"
    by code_simp
  note t = finalize_gated_and_terminal
    [of "fst ?sd" "''Acme''" "''Weekly''" "map nat" "\<lambda>k. None" True "snd ?sd" example_services]
  from t f gates have b: "step_6_button (fst ?sd) ''Acme'' ''Weekly'' = Some ProceedToPlay"
    by blast
  from t f have "podcast_finalized (fst (run example_services ?events (fst ?sd, snd ?sd))) = Some True
      \<and> podcasts (snd (run example_services ?events (fst ?sd, snd ?sd))) = podcasts (snd ?sd)"
    by blast
  then have r: "podcast_finalized (fst (run example_services ?events ?sd)) = Some True"
    "podcasts (snd (run example_services ?events ?sd)) = [\<lparr>p_id = 1, p_title = ''Acme Weekly''\<rparr>]"
    using p by simp_all
  show ?thesis using ready_buttons f b r by blast
qed

section \<open>Saving a podcast: proofs\<close>

lemma save_segment_Inr:
  "save_segment f pid kind audio w = Inr w' \<Longrightarrow>
   w' = fold (\<lambda>(k, d). insert_segment pid k d) (provided_segment kind audio) w"
  by (auto simp: save_segment_def provided_segment_def split: option.splits if_splits)

lemma save_segment_Inl: "save_segment f pid kind audio w = Inl e \<Longrightarrow> f = Some e"
  by (auto simp: save_segment_def split: option.splits if_splits)

lemma save_segment_no_fault:
  "save_segment None pid kind audio w =
     Inr (fold (\<lambda>(k, d). insert_segment pid k d) (provided_segment kind audio) w)"
  by (simp add: save_segment_def provided_segment_def split: option.splits)

lemma save_podcast_outcome:
  assumes "save_podcast fault title_value intro hosts outro db = (db', res)"
  shows "case res of
           Inl e \<Rightarrow> db' = db \<and> (\<exists>k \<le> 4. fault k = Some e)
         | Inr podcast_id \<Rightarrow>
             podcast_id = snd (insert_podcast title_value db)
             \<and> db' = committed title_value intro hosts outro db"
proof (cases "fault 0")
  case (Some e)
  with assms have "db' = db" "res = Inl e" by (simp_all add: save_podcast_def)
  moreover from Some have "\<exists>k \<le> 4. fault k = Some e" by (intro exI [of _ 0]) simp
  ultimately show ?thesis by simp
next
  case f0: None
  obtain w0 pid where ip: "insert_podcast title_value db = (w0, pid)"
    by (cases "insert_podcast title_value db")
  show ?thesis
  proof (cases "save_segment (fault 1) pid ''intro'' intro w0")
    case (Inl e)
    with assms f0 ip have "db' = db" "res = Inl e" by (simp_all add: save_podcast_def)
    moreover have "fault 1 = Some e" using Inl by (rule save_segment_Inl)
    then have "\<exists>k \<le> 4. fault k = Some e" by (intro exI [of _ 1]) simp
    ultimately show ?thesis by simp
  next
    case w1: (Inr w1)
    show ?thesis
    proof (cases "save_segment (fault 2) pid ''hosts_discussion'' hosts w1")
      case (Inl e)
      with assms f0 ip w1 have "db' = db" "res = Inl e" by (simp_all add: save_podcast_def)
      moreover have "fault 2 = Some e" using Inl by (rule save_segment_Inl)
      then have "\<exists>k \<le> 4. fault k = Some e" by (intro exI [of _ 2]) simp
      ultimately show ?thesis by simp
    next
      case w2: (Inr w2)
      show ?thesis
      proof (cases "save_segment (fault 3) pid ''outro'' outro w2")
        case (Inl e)
        with assms f0 ip w1 w2 have "db' = db" "res = Inl e"
          by (simp_all add: save_podcast_def)
        moreover have "fault 3 = Some e" using Inl by (rule save_segment_Inl)
        then have "\<exists>k \<le> 4. fault k = Some e" by (intro exI [of _ 3]) simp
        ultimately show ?thesis by simp
      next
        case w3: (Inr w3)
        show ?thesis
        proof (cases "fault 4")
          case (Some e)
          with assms f0 ip w1 w2 w3 have "db' = db" "res = Inl e"
            by (simp_all add: save_podcast_def)
          moreover from Some have "\<exists>k \<le> 4. fault k = Some e" by (intro exI [of _ 4]) simp
          ultimately show ?thesis by simp
        next
          case None
          with assms f0 ip w1 w2 w3 have r: "db' = w3" "res = Inr pid"
            by (simp_all add: save_podcast_def)
          have "w3 = committed title_value intro hosts outro db"
            using save_segment_Inr [OF w1] save_segment_Inr [OF w2] save_segment_Inr [OF w3]
            by (simp add: committed_def provided_segments_def ip)
          with r ip show ?thesis by simp
        qed
      qed
    qed
  qed
qed

lemma save_podcast_no_fault:
  assumes "\<forall>k \<le> 4. fault k = None"
  shows "save_podcast fault title_value intro hosts outro db =
     (committed title_value intro hosts outro db, Inr (snd (insert_podcast title_value db)))"
proof -
  obtain db' res where r: "save_podcast fault title_value intro hosts outro db = (db', res)"
    by (cases "save_podcast fault title_value intro hosts outro db")
  from save_podcast_outcome [OF r] assms show ?thesis
    unfolding r by (cases res) auto
qed

lemma fold_insert_segment:
  "\<exists>rows n. fold (\<lambda>(k, d). insert_segment pid k d) segs w =
      w\<lparr>podcast_segments := podcast_segments w @ rows, segments_seq := n\<rparr>
    \<and> map (\<lambda>r. (s_podcast_id r, segment_type r, audio_data r)) rows =
        map (\<lambda>(k, d). (pid, k, d)) segs"
proof (induction segs arbitrary: w)
  case Nil
  have "w = w\<lparr>podcast_segments := podcast_segments w @ [], segments_seq := segments_seq w\<rparr>"
    by simp
  then show ?case by (intro exI [of _ "[]"] exI [of _ "segments_seq w"]) simp
next
  case (Cons s segs)
  obtain k d where s: "s = (k, d)" by (cases s)
  define row where "row = \<lparr>s_id = next_id (segments_seq w) (map s_id (podcast_segments w)),
      s_podcast_id = pid, segment_type = k, audio_data = d\<rparr>"
  define w1 where "w1 = insert_segment pid k d w"
  have w1: "podcast_segments w1 = podcast_segments w @ [row]"
    and others: "w1\<lparr>podcast_segments := x, segments_seq := y\<rparr> =
      w\<lparr>podcast_segments := x, segments_seq := y\<rparr>" for x y
    by (simp_all add: w1_def row_def insert_segment_def Let_def)
  from Cons.IH [of w1] obtain rows n where
    f: "fold (\<lambda>(k, d). insert_segment pid k d) segs w1 =
      w1\<lparr>podcast_segments := podcast_segments w1 @ rows, segments_seq := n\<rparr>"
    and m: "map (\<lambda>r. (s_podcast_id r, segment_type r, audio_data r)) rows =
        map (\<lambda>(k, d). (pid, k, d)) segs"
    by blast
  have "fold (\<lambda>(k, d). insert_segment pid k d) (s # segs) w =
      fold (\<lambda>(k, d). insert_segment pid k d) segs w1"
    by (simp add: s w1_def)
  also have "\<dots> = w\<lparr>podcast_segments := podcast_segments w @ (row # rows), segments_seq := n\<rparr>"
    unfolding f w1 others by simp
  finally have "fold (\<lambda>(k, d). insert_segment pid k d) (s # segs) w =
      w\<lparr>podcast_segments := podcast_segments w @ (row # rows), segments_seq := n\<rparr>" .
  moreover have "map (\<lambda>r. (s_podcast_id r, segment_type r, audio_data r)) (row # rows) =
        map (\<lambda>(k, d). (pid, k, d)) (s # segs)"
    using m by (simp add: s row_def)
  ultimately show ?case by blast
qed

lemma committed_rows:
  "podcasts (committed title_value intro hosts outro db) =
     podcasts db @ [\<lparr>p_id = snd (insert_podcast title_value db), p_title = title_value\<rparr>]
   \<and> (\<exists>rows. podcast_segments (committed title_value intro hosts outro db) =
         podcast_segments db @ rows
       \<and> map (\<lambda>r. (s_podcast_id r, segment_type r, audio_data r)) rows =
          map (\<lambda>(k, d). (snd (insert_podcast title_value db), k, d))
            (provided_segments intro hosts outro))
   \<and> progress (committed title_value intro hosts outro db) = progress db"
proof -
  let ?pid = "snd (insert_podcast title_value db)"
  let ?w0 = "fst (insert_podcast title_value db)"
  from fold_insert_segment [of ?pid "provided_segments intro hosts outro" ?w0]
  obtain rows n where
    f: "committed title_value intro hosts outro db =
      ?w0\<lparr>podcast_segments := podcast_segments ?w0 @ rows, segments_seq := n\<rparr>"
    and m: "map (\<lambda>r. (s_podcast_id r, segment_type r, audio_data r)) rows =
        map (\<lambda>(k, d). (?pid, k, d)) (provided_segments intro hosts outro)"
    unfolding committed_def by blast
  have w0: "podcasts ?w0 = podcasts db @ [\<lparr>p_id = ?pid, p_title = title_value\<rparr>]"
    "podcast_segments ?w0 = podcast_segments db" "progress ?w0 = progress db"
    by (simp_all add: insert_podcast_def Let_def)
  have "podcasts (committed title_value intro hosts outro db) = podcasts ?w0"
    "podcast_segments (committed title_value intro hosts outro db) = podcast_segments ?w0 @ rows"
    "progress (committed title_value intro hosts outro db) = progress ?w0"
    unfolding f by simp_all
  with w0 m show ?thesis by auto
qed

lemma provided_segments_set:
  "(kind, data) \<in> set (provided_segments intro hosts outro) \<longleftrightarrow>
     data \<noteq> [] \<and> ((kind = ''intro'' \<and> intro = Some data)
                 \<or> (kind = ''hosts_discussion'' \<and> hosts = Some data)
                 \<or> (kind = ''outro'' \<and> outro = Some data))"
  by (auto simp: provided_segments_def provided_segment_def split: option.splits if_splits)

text \<open>
  C10. \<^verbatim>\<open>save_podcast\<close> is atomic. Whatever statement of the transaction fails, the
  call either commits the podcast row together with one segment row for each of intro,
  hosts discussion and outro whose payload is given and non-empty (and no other row),
  or it leaves the database as it was and raises the exception of the failed statement
  to the caller; when no statement fails it commits.
\<close>

theorem save_podcast_atomic:
  assumes "save_podcast fault title_value intro hosts outro db = (db', res)"
  shows "(case res of
            Inl e \<Rightarrow> db' = db \<and> (\<exists>k \<le> 4. fault k = Some e)
          | Inr podcast_id \<Rightarrow>
              podcast_id = next_id (podcasts_seq db) (map p_id (podcasts db))
              \<and> podcasts db' = podcasts db @ [\<lparr>p_id = podcast_id, p_title = title_value\<rparr>]
              \<and> (\<exists>rows. podcast_segments db' = podcast_segments db @ rows
                    \<and> map (\<lambda>r. (s_podcast_id r, segment_type r, audio_data r)) rows =
                       map (\<lambda>(k, d). (podcast_id, k, d)) (provided_segments intro hosts outro))
              \<and> progress db' = progress db)
    \<and> ((\<forall>k \<le> 4. fault k = None) \<longrightarrow> (\<exists>podcast_id. res = Inr podcast_id))
    \<and> (\<forall>kind data. (kind, data) \<in> set (provided_segments intro hosts outro) \<longleftrightarrow>
          data \<noteq> [] \<and> ((kind = ''intro'' \<and> intro = Some data)
                      \<or> (kind = ''hosts_discussion'' \<and> hosts = Some data)
                      \<or> (kind = ''outro'' \<and> outro = Some data)))"
proof -
  have pid: "snd (insert_podcast title_value db) = next_id (podcasts_seq db) (map p_id (podcasts db))"
    by (simp add: insert_podcast_def Let_def)
  have first: "case res of
            Inl e \<Rightarrow> db' = db \<and> (\<exists>k \<le> 4. fault k = Some e)
          | Inr podcast_id \<Rightarrow>
              podcast_id = next_id (podcasts_seq db) (map p_id (podcasts db))
              \<and> podcasts db' = podcasts db @ [\<lparr>p_id = podcast_id, p_title = title_value\<rparr>]
              \<and> (\<exists>rows. podcast_segments db' = podcast_segments db @ rows
                    \<and> map (\<lambda>r. (s_podcast_id r, segment_type r, audio_data r)) rows =
                       map (\<lambda>(k, d). (podcast_id, k, d)) (provided_segments intro hosts outro))
              \<and> progress db' = progress db"
  proof (cases res)
    case (Inl e)
    with save_podcast_outcome [OF assms] show ?thesis by simp
  next
    case (Inr podcast_id)
    with save_podcast_outcome [OF assms]
    have "podcast_id = snd (insert_podcast title_value db)"
      "db' = committed title_value intro hosts outro db" by simp_all
    with committed_rows [of title_value intro hosts outro db] pid Inr
    show ?thesis by simp
  qed
  have second: "(\<forall>k \<le> 4. fault k = None) \<longrightarrow> (\<exists>podcast_id. res = Inr podcast_id)"
    using save_podcast_no_fault [of fault title_value intro hosts outro db] assms by auto
  from first second provided_segments_set show ?thesis by blast
qed

lemma example_save_committed:
  "save_podcast (\<lambda>k. None) ''Acme Weekly'' (Some [1, 2]) None (Some []) empty_database =
     (empty_database
        \<lparr>podcasts := [\<lparr>p_id = 1, p_title = ''Acme Weekly''\<rparr>],
         podcast_segments :=
           [\<lparr>s_id = 1, s_podcast_id = 1, segment_type = ''intro'', audio_data = [1, 2]\<rparr>],
         podcasts_seq := 1, segments_seq := 1\<rparr>,
      Inr 1)"
  by code_simp

lemma example_save_rolled_back:
  "save_podcast (\<lambda>k. if k = 3 then Some DatabaseError else None) ''Acme Weekly''
     (Some [1]) (Some [2]) (Some [3]) empty_database =
     (empty_database, Inl DatabaseError)"
  by code_simp

theorem save_podcast_atomic_witness:
  "save_podcast (\<lambda>k. if k = 3 then Some DatabaseError else None) ''Acme Weekly''
     (Some [1]) (Some [2]) (Some [3]) empty_database =
     (empty_database, Inl DatabaseError)
   \<and> (\<exists>k \<le> 4. (if k = (3::nat) then Some DatabaseError else None) = Some DatabaseError)
   \<and> fst (save_podcast (\<lambda>k. None) ''Acme Weekly'' (Some [1, 2]) None (Some []) empty_database) =
       empty_database
        \<lparr>podcasts := [\<lparr>p_id = 1, p_title = ''Acme Weekly''\<rparr>],
         podcast_segments :=
           [\<lparr>s_id = 1, s_podcast_id = 1, segment_type = ''intro'', audio_data = [1, 2]\<rparr>],
         podcasts_seq := 1, segments_seq := 1\<rparr>
   \<and> (\<exists>rows. [\<lparr>s_id = 1, s_podcast_id = 1, segment_type = ''intro'', audio_data = [1, 2]\<rparr>] =
          podcast_segments empty_database @ rows
        \<and> map (\<lambda>r. (s_podcast_id r, segment_type r, audio_data r)) rows =
           map (\<lambda>(k, d). (1, k, d)) (provided_segments (Some [1, 2]) None (Some [])))
   \<and> provided_segments (Some [1, 2]) None (Some []) = [(''intro'', [1, 2])]"
proof -
  from save_podcast_atomic [OF example_save_rolled_back]
  have a: "\<exists>k \<le> 4. (if k = (3::nat) then Some DatabaseError else None) = Some DatabaseError"
    by simp
  from save_podcast_atomic [OF example_save_committed]
  have b: "\<exists>rows. [\<lparr>s_id = 1, s_podcast_id = 1, segment_type = ''intro'', audio_data = [1, 2]\<rparr>] =
          podcast_segments empty_database @ rows
        \<and> map (\<lambda>r. (s_podcast_id r, segment_type r, audio_data r)) rows =
           map (\<lambda>(k, d). (1, k, d)) (provided_segments (Some [1, 2]) None (Some []))"
    by (simp add: empty_database_def next_id_def)
  have c: "provided_segments (Some [1, 2]) None (Some []) = [(''intro'', [1, 2])]"
    by (simp add: provided_segments_def provided_segment_def)
  show ?thesis
    using a b c example_save_rolled_back example_save_committed by simp
qed

section \<open>Saving and loading progress: proofs\<close>

text \<open>Building a dictionary from items with distinct keys keeps the items as they are, and
  a value whose dictionaries have only string keys, pairwise distinct, is written by
  \<^const>\<open>json_dumps\<close> and read back by \<^const>\<open>json_loads\<close> as the same value with every tuple
  turned into a list.\<close>

lemma update_fresh: "k \<notin> fst ` set al \<Longrightarrow> AList.update k v al = al @ [(k, v)]"
  by (induction al) auto

lemma fold_update_distinct:
  "distinct (map fst (acc @ kvs)) \<Longrightarrow> fold (\<lambda>(k, v). AList.update k v) kvs acc = acc @ kvs"
proof (induction kvs arbitrary: acc)
  case Nil
  then show ?case by simp
next
  case (Cons kv kvs)
  obtain k v where kv: "kv = (k, v)" by (cases kv)
  from Cons.prems have fresh: "k \<notin> fst ` set acc" by (auto simp: kv)
  from Cons.prems have "distinct (map fst ((acc @ [(k, v)]) @ kvs))" by (simp add: kv)
  from Cons.IH [OF this] show ?case by (simp add: kv update_fresh [OF fresh])
qed

lemma dict_of_distinct: "distinct (map fst kvs) \<Longrightarrow> dict_of kvs = kvs"
  using fold_update_distinct [of "[]" kvs] by (simp add: dict_of_def)

lemma untuple_items_keys: "map fst (untuple_items kvs) = map fst kvs"
  by (induction kvs) auto

lemma str_keys_items_distinct: "str_keys_items kvs \<Longrightarrow> distinct (map fst kvs)"
  by (induction kvs) (auto simp: rev_image_eqI)

lemma dumps_loads:
  "str_keys p \<Longrightarrow> \<exists>j. json_dumps r p = Inr j \<and> json_loads j = untuple p"
  "str_keys_list xs \<Longrightarrow> \<exists>js. dumps_list r xs = Inr js \<and> loads_list js = untuple_list xs"
  "str_keys_items kvs \<Longrightarrow>
     \<exists>js. dumps_items r kvs = Inr js \<and> loads_items js = untuple_items kvs"
proof (induction p and xs and kvs rule: str_keys_str_keys_list_str_keys_items.induct)
  case (3 kvs)
  then obtain js where js: "dumps_items r kvs = Inr js" "loads_items js = untuple_items kvs"
    by auto
  have "distinct (map fst (untuple_items kvs))"
    using "3.prems" by (simp add: untuple_items_keys str_keys_items_distinct)
  then show ?case by (simp add: js dict_of_distinct)
next
  case (8 k v kvs)
  from "8.prems" obtain name where k: "k = PStr name" by (cases k) auto
  from 8 obtain j js where "json_dumps r v = Inr j" "json_loads j = untuple v"
    "dumps_items r kvs = Inr js" "loads_items js = untuple_items kvs"
    by auto
  then show ?case by (simp add: k key_text_def)
qed auto

text \<open>The row that \<^const>\<open>save_progress\<close> inserts gets an id that no earlier row has, so
  \<^const>\<open>load_progress_by_id\<close> finds it.\<close>

lemma fold_max_ge: "(a::nat) \<le> fold max ids a \<and> (\<forall>x \<in> set ids. x \<le> fold max ids a)"
proof (induction ids arbitrary: a)
  case Nil
  then show ?case by simp
next
  case (Cons i ids)
  from Cons.IH [of "max i a"] show ?case by auto
qed

lemma next_id_fresh: "x \<in> set ids \<Longrightarrow> x < next_id seq ids"
  using fold_max_ge [of seq ids] by (auto simp: next_id_def)

lemma find_fresh_last:
  "\<forall>r \<in> set rows. \<not> P r \<Longrightarrow> P row \<Longrightarrow> find P (rows @ [row]) = Some row"
  by (induction rows) simp_all

lemma find_new_progress_row:
  "g_id row = new_progress_id db \<Longrightarrow>
   find (\<lambda>r. g_id r = new_progress_id db) (progress db @ [row]) = Some row"
proof -
  assume row: "g_id row = new_progress_id db"
  have "g_id r < new_progress_id db" if "r \<in> set (progress db)" for r
    using that next_id_fresh [of "g_id r" "map g_id (progress db)" "progress_seq db"]
    by (simp add: new_progress_id_def)
  then have "\<forall>r \<in> set (progress db). g_id r \<noteq> new_progress_id db"
    by fastforce
  then show ?thesis using row by (intro find_fresh_last) simp_all
qed

lemma load_saved_progress:
  assumes "str_keys script_value" "str_keys config_value" "str_keys segments"
  shows "\<exists>db'. save_progress r now name_value script_value config_value segments db = Inr db'
    \<and> load_progress_by_id (new_progress_id db) db' =
        Some \<lparr>loaded_script = untuple script_value, loaded_config = untuple config_value,
              loaded_audio_segments = (if truthy segments then untuple segments else PNone)\<rparr>"
proof -
  from dumps_loads(1) [OF assms(1), of r] obtain sj where
    sj: "json_dumps r script_value = Inr sj" "json_loads sj = untuple script_value" by blast
  from dumps_loads(1) [OF assms(2), of r] obtain cj where
    cj: "json_dumps r config_value = Inr cj" "json_loads cj = untuple config_value" by blast
  from dumps_loads(1) [OF assms(3), of r] obtain aj where
    aj: "json_dumps r segments = Inr aj" "json_loads aj = untuple segments" by blast
  let ?row = "\<lparr>g_id = new_progress_id db, g_name = name_value, g_script = sj, g_config = cj,
      g_audio_segments = (if truthy segments then Some aj else None), g_created_at = now\<rparr>"
  let ?db' = "db\<lparr>progress := progress db @ [?row], progress_seq := new_progress_id db\<rparr>"
  have saved: "save_progress r now name_value script_value config_value segments db = Inr ?db'"
    by (simp add: save_progress_def sj cj aj new_progress_id_def Let_def)
  have "find (\<lambda>r. g_id r = new_progress_id db) (progress db @ [?row]) = Some ?row"
    by (rule find_new_progress_row) simp
  then have "load_progress_by_id (new_progress_id db) ?db' =
        Some \<lparr>loaded_script = untuple script_value, loaded_config = untuple config_value,
              loaded_audio_segments = (if truthy segments then untuple segments else PNone)\<rparr>"
    by (simp add: load_progress_by_id_def sj cj aj)
  with saved show ?thesis by blast
qed

text \<open>The values that the sidebar button saves: the script, the configuration and the
  serialized clips of the session.\<close>

lemma those_map_Some:
  "(\<And>x. x \<in> set xs \<Longrightarrow> h x = Some x) \<Longrightarrow> those (map h xs) = Some xs"
  by (induction xs) simp_all

lemma those_map_map_Some:
  "(\<And>x. x \<in> set xs \<Longrightarrow> h (g x) = Some x) \<Longrightarrow> those (map h (map g xs)) = Some xs"
  by (induction xs) simp_all

lemma str_keys_list_map: "(\<And>x. str_keys (f x)) \<Longrightarrow> str_keys_list (map f xs)"
  by (induction xs) simp_all

lemma untuple_list_map: "(\<And>x. untuple (f x) = g x) \<Longrightarrow> untuple_list (map f xs) = map g xs"
  by (induction xs) simp_all

lemma str_keys_items_map:
  "distinct (map fst m) \<Longrightarrow> (\<And>v. str_keys (f v)) \<Longrightarrow>
   str_keys_items (map (\<lambda>(k, v). (PStr k, f v)) m)"
  by (induction m) force+

lemma untuple_items_map:
  "(\<And>v. untuple (f v) = f v) \<Longrightarrow>
   untuple_items (map (\<lambda>(k, v). (PStr k, f v)) m) = map (\<lambda>(k, v). (PStr k, f v)) m"
  by (induction m) auto

lemma dict_of_py_map:
  assumes "\<And>v. value (f v) = Some v"
  shows "dict_of_py value (PDict (map (\<lambda>(k, v). (PStr k, f v)) m)) = Some (m :: (string \<times> 'a) list)"
proof -
  have "those (map (\<lambda>(k, v). case (str_of_py k, value v) of
                                  (Some name, Some a) \<Rightarrow> Some (name, a)
                                | _ \<Rightarrow> None) (map (\<lambda>(k, v). (PStr k, f v)) m)) = Some m"
    by (rule those_map_map_Some) (auto simp: assms str_of_py_def)
  then show ?thesis by (simp add: dict_of_py_def)
qed

text \<open>Script lines.\<close>

lemma str_keys_line: "str_keys (py_of_line line)"
  by (cases "uid line") (simp_all add: py_of_line_def)

lemma untuple_line: "untuple (py_of_line line) = py_of_line line"
  by (cases "uid line") (simp_all add: py_of_line_def)

lemma line_of_py_line: "line_of_py (py_of_line line) = Some line"
  by (cases "uid line") (simp_all add: line_of_py_def py_of_line_def str_of_py_def)

lemma str_keys_script: "str_keys (py_of_script lines)"
  by (simp add: py_of_script_def str_keys_list_map str_keys_line)

lemma untuple_script: "untuple (py_of_script lines) = py_of_script lines"
  by (simp add: py_of_script_def untuple_list_map [where g = py_of_line] untuple_line)

lemma script_of_py_script: "script_of_py (py_of_script lines) = Some lines"
  unfolding script_of_py_def py_of_script_def py.case
  by (rule those_map_map_Some) (rule line_of_py_line)

text \<open>The configuration.\<close>

lemma str_keys_settings: "str_keys (py_of_settings vs)"
  by (simp add: py_of_settings_def)

lemma untuple_settings: "untuple (py_of_settings vs) = py_of_settings vs"
  by (simp add: py_of_settings_def)

lemma settings_of_py_settings: "settings_of_py (py_of_settings vs) = Some vs"
  by (simp add: settings_of_py_def py_of_settings_def float_of_py_def)

lemma str_keys_config: "distinct_keys c \<Longrightarrow> str_keys (py_of_config c)"
  by (cases "voice_settings_per_speaker c"; cases "intro_music c")
     (simp_all add: py_of_config_def distinct_keys_def str_keys_items_map str_keys_settings)

lemma untuple_config: "untuple (py_of_config c) = py_of_config c"
  by (cases "voice_settings_per_speaker c"; cases "intro_music c")
     (simp_all add: py_of_config_def untuple_items_map untuple_settings)

lemma config_of_py_config: "config_of_py (py_of_config c) = Some c"
proof -
  have p: "dict_of_py str_of_py (PDict (map (\<lambda>(k, v). (PStr k, PStr v)) (podcasters c))) =
      Some (podcasters c)"
    by (rule dict_of_py_map) (simp add: str_of_py_def)
  have s: "dict_of_py settings_of_py (PDict (map (\<lambda>(k, v). (PStr k, py_of_settings v)) m)) = Some m"
    for m
    by (rule dict_of_py_map) (rule settings_of_py_settings)
  show ?thesis
    by (cases "voice_settings_per_speaker c"; cases "intro_music c")
       (simp_all add: config_of_py_def py_of_config_def str_of_py_def
          optional_str_of_py_def settings_of_py_settings p s)
qed

text \<open>The serialized clips.\<close>

lemma str_keys_segments: "str_keys (py_of_segments segments)"
proof -
  have "str_keys ((\<lambda>(label, b64_audio).
      PTuple [PStr label, (case b64_audio of None \<Rightarrow> PNone | Some a \<Rightarrow> PStr a)]) x)" for x
    by (cases x; cases "snd x") simp_all
  then show ?thesis
    unfolding py_of_segments_def str_keys.simps by (rule str_keys_list_map)
qed

lemma truthy_segments: "truthy (py_of_segments segments) \<longleftrightarrow> segments \<noteq> []"
  by (simp add: py_of_segments_def truthy_def)

lemma segments_of_py_segments:
  "segments_of_py (untuple (py_of_segments segments)) = Some segments"
proof -
  let ?f = "\<lambda>(label, b64_audio).
      PTuple [PStr label, (case b64_audio of None \<Rightarrow> PNone | Some a \<Rightarrow> PStr a)]"
  let ?g = "\<lambda>(label, b64_audio).
      PList [PStr label, (case b64_audio of None \<Rightarrow> PNone | Some a \<Rightarrow> PStr a)]"
  have "untuple (?f x) = ?g x" for x :: "string \<times> string option"
    by (cases x; cases "snd x") simp_all
  then have u: "untuple_list (map ?f segments) = map ?g segments"
    by (rule untuple_list_map)
  have "segment_of_py (?g x) = Some x" for x :: "string \<times> string option"
    by (cases x; cases "snd x")
       (simp_all add: segment_of_py_def str_of_py_def optional_str_of_py_def)
  then have "those (map segment_of_py (map ?g segments)) = Some segments"
    by (intro those_map_map_Some)
  then show ?thesis
    by (simp add: py_of_segments_def segments_of_py_def u)
qed

text \<open>What the "Save Progress" button stores for a clip: a clip counts as present when
  its audio is not \<^verbatim>\<open>None\<close> and has non-zero length.\<close>

lemma empty_audio_stored_absent: "serialize_clip ex enc (label, Some []) = (label, None)"
  by (simp add: serialize_clip_def)

lemma stored_markers:
  "map (\<lambda>(label, b64_audio). (label, b64_audio \<noteq> None)) (map (serialize_clip ex enc) cache) =
   map (\<lambda>(label, audio). (label, case audio of None \<Rightarrow> False | Some a \<Rightarrow> a \<noteq> [])) cache"
  by (induction cache) (auto simp: serialize_clip_def split: option.splits)

text \<open>Counterexample to C9 as stated. \<^verbatim>\<open>json.dumps\<close> writes every dictionary key as a string
  (database.py:157), and step 2 admits a speaker that is not a string (app.py:128), which
  step 4 uses as a key of the configuration (app.py:248, 265, 284). The configuration
  \<^const>\<open>numbered_config\<close> has the speaker \<^verbatim>\<open>1\<close> as the key of its podcasters: saving succeeds, the
  script comes back as it was saved, and the configuration comes back with the key
  \<^verbatim>\<open>1\<close> as a string, which is a different value.\<close>

theorem saved_config_key_becomes_string:
  "\<not> isl (save_progress (\<lambda>f. ''0.5'') ''2025-01-01 08:00:00 PST'' ''demo''
            numbered_script numbered_config PNone empty_database)
   \<and> map_option loaded_script
        (load_progress_by_id (new_progress_id empty_database)
           (projr (save_progress (\<lambda>f. ''0.5'') ''2025-01-01 08:00:00 PST'' ''demo''
                     numbered_script numbered_config PNone empty_database))) =
      Some numbered_script
   \<and> map_option loaded_config
        (load_progress_by_id (new_progress_id empty_database)
           (projr (save_progress (\<lambda>f. ''0.5'') ''2025-01-01 08:00:00 PST'' ''demo''
                     numbered_script numbered_config PNone empty_database))) =
      Some numbered_config_loaded
   \<and> numbered_config_loaded \<noteq> numbered_config"
  by code_simp

lemma untuple_list_empty: "untuple_list xs = [] \<longleftrightarrow> xs = []"
  by (cases xs) simp_all

lemma load_after_save_button:
  assumes name: "strip progress_name \<noteq> []" and keys: "distinct_keys (config st)"
  shows "\<exists>db'. save_progress_button ex enc r now progress_name (st, db) = ((st, db'), None)
    \<and> load_progress_button dec from_mp3 (new_progress_id db) db' st2 =
        (case deserialize_clips dec from_mp3 (map (serialize_clip ex enc) (audio_segments st)) of
           Inl e \<Rightarrow> (st2\<lparr>script := script st, config := config st\<rparr>, Some e)
         | Inr cs \<Rightarrow>
             (st2\<lparr>script := script st, config := config st, audio_segments := cs\<rparr>, None))"
proof -
  let ?segs = "map (serialize_clip ex enc) (audio_segments st)"
  from load_saved_progress [OF str_keys_script [of "script st"] str_keys_config [OF keys]
      str_keys_segments [of ?segs], of r now "strip progress_name" db]
  obtain db' where
    saved: "save_progress r now (strip progress_name) (py_of_script (script st))
              (py_of_config (config st)) (py_of_segments ?segs) db = Inr db'"
    and loaded: "load_progress_by_id (new_progress_id db) db' =
        Some \<lparr>loaded_script = py_of_script (script st), loaded_config = py_of_config (config st),
              loaded_audio_segments =
                (if ?segs \<noteq> [] then untuple (py_of_segments ?segs) else PNone)\<rparr>"
    unfolding untuple_script untuple_config truthy_segments by blast
  have button: "save_progress_button ex enc r now progress_name (st, db) = ((st, db'), None)"
    using name saved by (simp add: save_progress_button_def)
  have "load_progress_button dec from_mp3 (new_progress_id db) db' st2 =
        (case deserialize_clips dec from_mp3 ?segs of
           Inl e \<Rightarrow> (st2\<lparr>script := script st, config := config st\<rparr>, Some e)
         | Inr cs \<Rightarrow>
             (st2\<lparr>script := script st, config := config st, audio_segments := cs\<rparr>, None))"
  proof (cases "?segs = []")
    case True
    then show ?thesis
      unfolding load_progress_button_def loaded
      by (simp add: script_of_py_script config_of_py_config truthy_def)
  next
    case False
    then have t: "truthy (untuple (py_of_segments ?segs))"
      by (simp add: py_of_segments_def truthy_def untuple_list_empty)
    from False show ?thesis
      unfolding load_progress_button_def loaded
      by (simp add: script_of_py_script config_of_py_config t segments_of_py_segments Let_def
          split: sum.splits)
  qed
  with button show ?thesis by blast
qed

lemma example_clips_round_trip:
  "deserialize_clips (b64_decode example_services) (mp3_decode example_services)
     (map (serialize_clip (mp3_export example_services) (b64_encode example_services))
        (audio_segments ready_session)) = Inr (audio_segments ready_session)"
  by code_simp

lemma example_name: "strip '' demo '' \<noteq> []"
  by code_simp

lemma example_distinct_keys: "distinct_keys (config ready_session)"
  by code_simp

lemma example_segments:
  "truthy (py_of_segments [(''Line 1'', Some ''QUJD''), (''Line 2'', None)])
   \<and> untuple (py_of_segments [(''Line 1'', Some ''QUJD''), (''Line 2'', None)]) =
       PList [PList [PStr ''Line 1'', PStr ''QUJD''], PList [PStr ''Line 2'', PNone]]"
  by (simp add: py_of_segments_def truthy_def)

text \<open>C9, amended. Loading a saved progress entry gives back what was saved when every
  dictionary of the saved script and configuration has string keys only, pairwise
  distinct, and neither holds a tuple: \<^const>\<open>save_progress\<close> succeeds and
  \<^const>\<open>load_progress_by_id\<close> on the new row returns exactly the saved script and
  configuration; the clip list comes back with every tuple as a list, and as \<^verbatim>\<open>None\<close> when
  it was empty. For the sidebar buttons: when the name is not blank and the dictionaries of
  the configuration have distinct keys, saving a session and loading the new entry into any
  session sets its script and configuration to the saved ones, and its clips to the saved
  clips decoded from the labels, markers and encoded strings that were saved.\<close>

theorem progress_round_trip:
  "(str_keys script_value \<and> untuple script_value = script_value
    \<and> str_keys config_value \<and> untuple config_value = config_value
    \<and> str_keys segments \<longrightarrow>
      (\<exists>db'. save_progress r now name_value script_value config_value segments db = Inr db'
         \<and> load_progress_by_id (new_progress_id db) db' =
             Some \<lparr>loaded_script = script_value, loaded_config = config_value,
                   loaded_audio_segments =
                     (if truthy segments then untuple segments else PNone)\<rparr>))
   \<and> (strip progress_name \<noteq> [] \<and> distinct_keys (config st) \<longrightarrow>
        (\<exists>db'. save_progress_button ex enc r now progress_name (st, db) = ((st, db'), None)
           \<and> load_progress_button dec from_mp3 (new_progress_id db) db' st2 =
               (case deserialize_clips dec from_mp3
                       (map (serialize_clip ex enc) (audio_segments st)) of
                  Inl e \<Rightarrow> (st2\<lparr>script := script st, config := config st\<rparr>, Some e)
                | Inr cs \<Rightarrow>
                    (st2\<lparr>script := script st, config := config st, audio_segments := cs\<rparr>,
                     None))))"
proof (intro conjI impI)
  assume a: "str_keys script_value \<and> untuple script_value = script_value
    \<and> str_keys config_value \<and> untuple config_value = config_value
    \<and> str_keys segments"
  then have k: "str_keys script_value" "str_keys config_value" "str_keys segments"
    and u: "untuple script_value = script_value" "untuple config_value = config_value"
    by simp_all
  from load_saved_progress [OF k, of r now name_value db]
  show "\<exists>db'. save_progress r now name_value script_value config_value segments db = Inr db'
         \<and> load_progress_by_id (new_progress_id db) db' =
             Some \<lparr>loaded_script = script_value, loaded_config = config_value,
                   loaded_audio_segments =
                     (if truthy segments then untuple segments else PNone)\<rparr>"
    unfolding u .
next
  assume "strip progress_name \<noteq> [] \<and> distinct_keys (config st)"
  then have "strip progress_name \<noteq> []" "distinct_keys (config st)" by simp_all
  then show "\<exists>db'. save_progress_button ex enc r now progress_name (st, db) = ((st, db'), None)
           \<and> load_progress_button dec from_mp3 (new_progress_id db) db' st2 =
               (case deserialize_clips dec from_mp3
                       (map (serialize_clip ex enc) (audio_segments st)) of
                  Inl e \<Rightarrow> (st2\<lparr>script := script st, config := config st\<rparr>, Some e)
                | Inr cs \<Rightarrow>
                    (st2\<lparr>script := script st, config := config st, audio_segments := cs\<rparr>,
                     None))"
    by (rule load_after_save_button)
qed

theorem progress_round_trip_witness:
  "str_keys (py_of_script (script ready_session))
   \<and> untuple (py_of_script (script ready_session)) = py_of_script (script ready_session)
   \<and> str_keys (py_of_config (config ready_session))
   \<and> untuple (py_of_config (config ready_session)) = py_of_config (config ready_session)
   \<and> str_keys (py_of_segments [(''Line 1'', Some ''QUJD''), (''Line 2'', None)])
   \<and> strip '' demo '' \<noteq> []
   \<and> distinct_keys (config ready_session)
   \<and> (\<exists>db'. save_progress (\<lambda>f. ''0.5'') ''2025-01-01 08:00:00 PST'' ''demo''
                (py_of_script (script ready_session)) (py_of_config (config ready_session))
                (py_of_segments [(''Line 1'', Some ''QUJD''), (''Line 2'', None)])
                empty_database = Inr db'
          \<and> load_progress_by_id (new_progress_id empty_database) db' =
              Some \<lparr>loaded_script = py_of_script (script ready_session),
                    loaded_config = py_of_config (config ready_session),
                    loaded_audio_segments =
                      PList [PList [PStr ''Line 1'', PStr ''QUJD''],
                             PList [PStr ''Line 2'', PNone]]\<rparr>)
   \<and> (\<exists>db'. save_progress_button (mp3_export example_services) (b64_encode example_services)
                (\<lambda>f. ''0.5'') ''2025-01-01 08:00:00 PST'' '' demo ''
                (ready_session, empty_database) = ((ready_session, db'), None)
          \<and> load_progress_button (b64_decode example_services) (mp3_decode example_services)
                (new_progress_id empty_database) db' example_session =
              (example_session\<lparr>script := script ready_session, config := config ready_session,
                               audio_segments := audio_segments ready_session\<rparr>, None))"
proof -
  let ?S = "py_of_script (script ready_session)"
  let ?C = "py_of_config (config ready_session)"
  let ?A = "py_of_segments [(''Line 1'', Some ''QUJD''), (''Line 2'', None)]"
  have h: "str_keys ?S \<and> untuple ?S = ?S \<and> str_keys ?C \<and> untuple ?C = ?C \<and> str_keys ?A"
    using str_keys_script untuple_script str_keys_config [OF example_distinct_keys]
      untuple_config str_keys_segments by blast
  have g: "strip '' demo '' \<noteq> [] \<and> distinct_keys (config ready_session)"
    using example_name example_distinct_keys by blast
  note t = progress_round_trip
    [of ?S ?C ?A "\<lambda>f. ''0.5''" "''2025-01-01 08:00:00 PST''" "''demo''" empty_database
        "'' demo ''" ready_session "mp3_export example_services" "b64_encode example_services"
        "b64_decode example_services" "mp3_decode example_services" example_session]
  from t h have a: "\<exists>db'. save_progress (\<lambda>f. ''0.5'') ''2025-01-01 08:00:00 PST'' ''demo''
                ?S ?C ?A empty_database = Inr db'
          \<and> load_progress_by_id (new_progress_id empty_database) db' =
              Some \<lparr>loaded_script = ?S, loaded_config = ?C,
                    loaded_audio_segments = (if truthy ?A then untuple ?A else PNone)\<rparr>"
    by blast
  then have a': "\<exists>db'. save_progress (\<lambda>f. ''0.5'') ''2025-01-01 08:00:00 PST'' ''demo''
                ?S ?C ?A empty_database = Inr db'
          \<and> load_progress_by_id (new_progress_id empty_database) db' =
              Some \<lparr>loaded_script = ?S, loaded_config = ?C,
                    loaded_audio_segments =
                      PList [PList [PStr ''Line 1'', PStr ''QUJD''],
                             PList [PStr ''Line 2'', PNone]]\<rparr>"
    using example_segments by simp
  from t g have "\<exists>db'. save_progress_button (mp3_export example_services)
                (b64_encode example_services) (\<lambda>f. ''0.5'') ''2025-01-01 08:00:00 PST''
                '' demo '' (ready_session, empty_database) = ((ready_session, db'), None)
          \<and> load_progress_button (b64_decode example_services) (mp3_decode example_services)
                (new_progress_id empty_database) db' example_session =
              (case deserialize_clips (b64_decode example_services) (mp3_decode example_services)
                      (map (serialize_clip (mp3_export example_services)
                              (b64_encode example_services)) (audio_segments ready_session)) of
                 Inl e \<Rightarrow> (example_session\<lparr>script := script ready_session,
                                           config := config ready_session\<rparr>, Some e)
               | Inr cs \<Rightarrow>
                   (example_session\<lparr>script := script ready_session,
                                    config := config ready_session, audio_segments := cs\<rparr>,
                    None))"
    by blast
  then have b: "\<exists>db'. save_progress_button (mp3_export example_services)
                (b64_encode example_services) (\<lambda>f. ''0.5'') ''2025-01-01 08:00:00 PST''
                '' demo '' (ready_session, empty_database) = ((ready_session, db'), None)
          \<and> load_progress_button (b64_decode example_services) (mp3_decode example_services)
                (new_progress_id empty_database) db' example_session =
              (example_session\<lparr>script := script ready_session, config := config ready_session,
                               audio_segments := audio_segments ready_session\<rparr>, None)"
    unfolding example_clips_round_trip by simp
  show ?thesis using h g a' b by blast
qed

end
